theory Spec2Isabelle
  imports Complex_Main
begin

section \<open>The batched 2D renderer of kaboom (src/gfx.ts)\<close>

text \<open>
  A shallow embedding of \<^verbatim>\<open>gfxInit\<close> and the functions it closes over.

  Conventions of the model:
  \<^item> a JavaScript \<^verbatim>\<open>number\<close> is a \<^typ>\<open>real\<close>: rounding, NaN and the infinities of
    IEEE doubles are outside the model, and a quotient whose divisor may be zero is kept
    away from by a hypothesis wherever a theorem depends on its value;
  \<^item> an optional field or argument (\<^verbatim>\<open>undefined\<close>, \<^verbatim>\<open>null\<close>) is an \<^typ>\<open>'a option\<close>;
  \<^item> an object that the code compares by identity (\<^verbatim>\<open>!==\<close>) or keeps by reference
    carries its identity (\<open>tex_id\<close>, \<open>prog_id\<close>, \<open>uobj\<close>);
  \<^item> the closure state \<^verbatim>\<open>gfx\<close>, the configuration \<^verbatim>\<open>gconf\<close> and what the code reads
    from and writes to the WebGL context \<^verbatim>\<open>gl\<close> are one record, passed in and returned.
\<close>

subsection \<open>Value types (types.ts)\<close>

record Vec2 =
  vx :: real
  vy :: real

record Vec3 =
  x3 :: real
  y3 :: real
  z3 :: real

record Color =
  cr :: real
  cg :: real
  cb :: real
  ca :: real

record Quad =
  qx :: real
  qy :: real
  qw :: real
  qh :: real

datatype Mat4 = Mat4 (mat_m: "real list")

datatype Origin =
  Topleft | Top | Topright | Left | Center | Right | Botleft | Bot | Botright

text \<open>\<^verbatim>\<open>Origin | Vec2\<close>: a named anchor or an explicit offset.\<close>

datatype OriginArg = Named Origin | Pt Vec2

text \<open>\<^verbatim>\<open>Vec2 | number\<close>, the type of the \<^verbatim>\<open>scale\<close> option.\<close>

datatype ScaleArg = ScaleNum real | ScaleVec Vec2

record GfxTexture =
  tex_id :: nat
  tex_width :: real
  tex_height :: real

record GfxProgram =
  prog_id :: nat

text \<open>
  The values \<^verbatim>\<open>GfxProgram.send\<close> uploads: a number, or one of the four shapes of
  \<^verbatim>\<open>UniformValue\<close>.
\<close>

datatype UniformValue =
  UNum real | UVec2 Vec2 | UVec3 Vec3 | UColor Color | UMat4 Mat4

text \<open>
  \<^verbatim>\<open>Uniform = Record<string, UniformValue>\<close>: the entries in insertion order, and the
  identity of the object that holds them: \<open>Some a\<close> for the object \<open>a\<close> of the caller,
  \<open>None\<close> for an object literal \<^verbatim>\<open>{}\<close> that the renderer makes itself, which is a new
  object each time. A value of this type is an object with the entries it holds when it
  is looked at.
\<close>

record Uniform =
  uobj :: "nat option"
  uentries :: "(string \<times> UniformValue) list"

text \<open>Two values stand for one and the same object.\<close>

definition sameObject :: "Uniform \<Rightarrow> Uniform \<Rightarrow> bool" where
  "sameObject u1 u2 = (case uobj u1 of None \<Rightarrow> False | Some a \<Rightarrow> uobj u2 = Some a)"

record Vertex =
  v_pos :: Vec3
  v_uv :: Vec2
  v_color :: Color

record GfxFont =
  ftex :: GfxTexture
  fmap :: "char \<rightharpoonup> Vec2"
  fqw :: real
  fqh :: real

text \<open>
  The configuration objects \<^verbatim>\<open>DrawQuadConf\<close>, \<^verbatim>\<open>DrawTextureConf\<close>, \<^verbatim>\<open>DrawRectConf\<close>,
  \<^verbatim>\<open>DrawRectStrokeConf\<close>, \<^verbatim>\<open>DrawLineConf\<close> and \<^verbatim>\<open>DrawTextConf\<close> are one record with
  every field optional: the code copies them into one another with the spread
  \<^verbatim>\<open>{...conf, ...}\<close>, which carries over every field that is present.
\<close>

record DrawConf =
  c_pos :: "Vec2 option"
  c_width :: "real option"
  c_height :: "real option"
  c_scale :: "ScaleArg option"
  c_rot :: "real option"
  c_color :: "Color option"
  c_origin :: "OriginArg option"
  c_z :: "real option"
  c_tex :: "GfxTexture option"
  c_quad :: "Quad option"
  c_prog :: "GfxProgram option"
  c_uniform :: "Uniform option"
  c_size :: "real option"

record FormattedChar =
  fc_tex :: GfxTexture
  fc_quad :: Quad
  fc_ch :: char
  fc_pos :: Vec2
  fc_color :: "Color option"
  fc_origin :: "OriginArg option"
  fc_scale :: Vec2
  fc_z :: "real option"

record FormattedText =
  ft_width :: real
  ft_height :: real
  ft_chars :: "FormattedChar list"

text \<open>
  One call of \<^verbatim>\<open>gl.drawElements(gl.TRIANGLES, count, gl.UNSIGNED_SHORT, 0)\<close>, with the
  program, texture and uniforms bound and the buffers uploaded when it was issued.
\<close>

record DrawElements =
  de_count :: nat
  de_prog :: GfxProgram
  de_tex :: GfxTexture
  de_uniform :: Uniform
  de_vertices :: "real list"
  de_indices :: "real list"

text \<open>
  \<^verbatim>\<open>GfxCtx\<close> (without the two buffer handles), then what \<^verbatim>\<open>gfxInit\<close> closes over:
  \<^verbatim>\<open>gconf.clearColor\<close>, \<^verbatim>\<open>gconf.scale\<close>, the size of the drawing buffer, and the
  draw calls issued on \<^verbatim>\<open>gl\<close> so far.
\<close>

record GfxCtx =
  vqueue :: "real list"
  iqueue :: "real list"
  clearColor :: Color
  defProg :: GfxProgram
  curProg :: "GfxProgram option"
  defTex :: GfxTexture
  curTex :: "GfxTexture option"
  bgTex :: GfxTexture
  curUniform :: Uniform
  transform :: Mat4
  transformStack :: "Mat4 list"
  drawCalls :: nat
  lastDrawCalls :: nat
  gconf_clearColor :: "Color option"
  gconf_scale :: "real option"
  gl_drawingBufferWidth :: real
  gl_drawingBufferHeight :: real
  gl_drawElements :: "DrawElements list"

definition DEF_ORIGIN :: OriginArg where
  "DEF_ORIGIN = Named Topleft"

definition STRIDE :: nat where
  "STRIDE = 9"

definition QUEUE_COUNT :: nat where
  "QUEUE_COUNT = 65536"

definition BG_GRID_SIZE :: real where
  "BG_GRID_SIZE = 64"

subsection \<open>The math kernel (math.ts) and deepEq (utils.ts)\<close>

definition vec2 :: "real \<Rightarrow> real \<Rightarrow> Vec2" where
  \<comment> \<open>Modelled from the spec: math.ts is missing; the constructor of the Vec2 value type.\<close>
  "vec2 px py = \<lparr>vx = px, vy = py\<rparr>"

definition vec3 :: "real \<Rightarrow> real \<Rightarrow> real \<Rightarrow> Vec3" where
  \<comment> \<open>Modelled from the spec: math.ts is missing; the constructor of the Vec3 value type.\<close>
  "vec3 px py pz = \<lparr>x3 = px, y3 = py, z3 = pz\<rparr>"

definition xy :: "Vec3 \<Rightarrow> Vec2" where
  \<comment> \<open>Modelled from the spec: math.ts is missing; \<^verbatim>\<open>Vec3.xy()\<close>, the first two components.\<close>
  "xy p = vec2 (x3 p) (y3 p)"

definition rgba :: "real \<Rightarrow> real \<Rightarrow> real \<Rightarrow> real \<Rightarrow> Color" where
  \<comment> \<open>Modelled from the spec: math.ts is missing; the constructor of the Color value type.\<close>
  "rgba pr pg pb pa = \<lparr>cr = pr, cg = pg, cb = pb, ca = pa\<rparr>"

definition quad :: "real \<Rightarrow> real \<Rightarrow> real \<Rightarrow> real \<Rightarrow> Quad" where
  \<comment> \<open>Modelled from the spec: math.ts is missing; the constructor of the Quad value type.\<close>
  "quad px py pw ph = \<lparr>qx = px, qy = py, qw = pw, qh = ph\<rparr>"

definition vadd :: "Vec2 \<Rightarrow> Vec2 \<Rightarrow> Vec2" where
  \<comment> \<open>Modelled from the spec: math.ts is missing; \<^verbatim>\<open>Vec2.add\<close>, componentwise.\<close>
  "vadd p q = vec2 (vx p + vx q) (vy p + vy q)"

definition vsub :: "Vec2 \<Rightarrow> Vec2 \<Rightarrow> Vec2" where
  \<comment> \<open>Modelled from the spec: math.ts is missing; \<^verbatim>\<open>Vec2.sub\<close>, componentwise.\<close>
  "vsub p q = vec2 (vx p - vx q) (vy p - vy q)"

definition vscale :: "Vec2 \<Rightarrow> Vec2 \<Rightarrow> Vec2" where
  \<comment> \<open>Modelled from the spec: math.ts is missing; \<^verbatim>\<open>Vec2.scale\<close> by a vector, componentwise.\<close>
  "vscale p s = vec2 (vx p * vx s) (vy p * vy s)"

definition vscalen :: "Vec2 \<Rightarrow> real \<Rightarrow> Vec2" where
  \<comment> \<open>Modelled from the spec: math.ts is missing; \<^verbatim>\<open>Vec2.scale\<close> by a number.\<close>
  "vscalen p s = vec2 (vx p * s) (vy p * s)"

definition vdist :: "Vec2 \<Rightarrow> Vec2 \<Rightarrow> real" where
  \<comment> \<open>Modelled from the spec: math.ts is missing; \<^verbatim>\<open>Vec2.dist\<close>, the Euclidean distance.\<close>
  "vdist p q = sqrt ((vx p - vx q) * (vx p - vx q) + (vy p - vy q) * (vy p - vy q))"

definition atan2 :: "real \<Rightarrow> real \<Rightarrow> real" where
  \<comment> \<open>\<^verbatim>\<open>Math.atan2(y, x)\<close> of the JavaScript library.\<close>
  "atan2 py px =
     (if 0 < px then arctan (py / px)
      else if px < 0 \<and> 0 \<le> py then arctan (py / px) + pi
      else if px < 0 then arctan (py / px) - pi
      else if 0 < py then pi / 2
      else if py < 0 then - pi / 2
      else 0)"

definition angle :: "Vec2 \<Rightarrow> Vec2 \<Rightarrow> real" where
  \<comment> \<open>Modelled from the spec: math.ts is missing; \<^verbatim>\<open>Vec2.angle\<close>, the direction between two points.\<close>
  "angle p q = atan2 (vy p - vy q) (vx p - vx q)"

definition mat4 :: Mat4 where
  \<comment> \<open>Modelled from the spec: math.ts is missing; \<^verbatim>\<open>mat4()\<close>, the identity matrix, column by column.\<close>
  "mat4 = Mat4 [1, 0, 0, 0,  0, 1, 0, 0,  0, 0, 1, 0,  0, 0, 0, 1]"

definition el :: "Mat4 \<Rightarrow> nat \<Rightarrow> real" where
  \<comment> \<open>Modelled from the spec: math.ts is missing; entry \<open>i\<close> of the 16 of a matrix.\<close>
  "el M i = (if i < length (mat_m M) then mat_m M ! i else 0)"

definition mult :: "Mat4 \<Rightarrow> Mat4 \<Rightarrow> Mat4" where
  \<comment> \<open>Modelled from the spec: math.ts is missing; \<^verbatim>\<open>Mat4.mult\<close>, the standard 4\<times>4 product.\<close>
  "mult A B = Mat4 (map (\<lambda>n.
       el A (n mod 4) * el B (4 * (n div 4))
     + el A (4 + n mod 4) * el B (4 * (n div 4) + 1)
     + el A (8 + n mod 4) * el B (4 * (n div 4) + 2)
     + el A (12 + n mod 4) * el B (4 * (n div 4) + 3)) [0..<16])"

definition mtranslate :: "Mat4 \<Rightarrow> Vec2 \<Rightarrow> Mat4" where
  \<comment> \<open>Modelled from the spec: math.ts is missing; \<^verbatim>\<open>Mat4.translate\<close>.\<close>
  "mtranslate M p = mult M (Mat4 [1, 0, 0, 0,  0, 1, 0, 0,  0, 0, 1, 0,  vx p, vy p, 0, 1])"

definition mscale :: "Mat4 \<Rightarrow> Vec2 \<Rightarrow> Mat4" where
  \<comment> \<open>Modelled from the spec: math.ts is missing; \<^verbatim>\<open>Mat4.scale\<close>.\<close>
  "mscale M s = mult M (Mat4 [vx s, 0, 0, 0,  0, vy s, 0, 0,  0, 0, 1, 0,  0, 0, 0, 1])"

definition rotateX :: "Mat4 \<Rightarrow> real \<Rightarrow> Mat4" where
  \<comment> \<open>Modelled from the spec: math.ts is missing; \<^verbatim>\<open>Mat4.rotateX\<close>.\<close>
  "rotateX M t =
     mult M (Mat4 [1, 0, 0, 0,  0, cos t, - sin t, 0,  0, sin t, cos t, 0,  0, 0, 0, 1])"

definition rotateY :: "Mat4 \<Rightarrow> real \<Rightarrow> Mat4" where
  \<comment> \<open>Modelled from the spec: math.ts is missing; \<^verbatim>\<open>Mat4.rotateY\<close>.\<close>
  "rotateY M t =
     mult M (Mat4 [cos t, 0, - sin t, 0,  0, 1, 0, 0,  sin t, 0, cos t, 0,  0, 0, 0, 1])"

definition rotateZ :: "Mat4 \<Rightarrow> real \<Rightarrow> Mat4" where
  \<comment> \<open>Modelled from the spec: math.ts is missing; \<^verbatim>\<open>Mat4.rotateZ\<close>.\<close>
  "rotateZ M t =
     mult M (Mat4 [cos t, - sin t, 0, 0,  sin t, cos t, 0, 0,  0, 0, 1, 0,  0, 0, 0, 1])"

definition multVec2 :: "Mat4 \<Rightarrow> Vec2 \<Rightarrow> Vec2" where
  \<comment> \<open>Modelled from the spec: math.ts is missing; \<^verbatim>\<open>Mat4.multVec2\<close>, the 2D affine part.\<close>
  "multVec2 M p =
     vec2 (vx p * el M 0 + vy p * el M 4 + el M 12) (vx p * el M 1 + vy p * el M 5 + el M 13)"

definition clone :: "Mat4 \<Rightarrow> Mat4" where
  \<comment> \<open>Modelled from the spec: math.ts is missing; \<^verbatim>\<open>Mat4.clone\<close>, a copy of the matrix.\<close>
  "clone M = Mat4 (mat_m M)"

definition deepEq :: "Uniform \<Rightarrow> Uniform \<Rightarrow> bool" where
  \<comment> \<open>Modelled from the spec: utils.ts is missing; deep structural equality of two uniform
      mappings: the same keys with equal values, whatever their order and identity.\<close>
  "deepEq u1 u2 =
     (length (uentries u1) = length (uentries u2)
      \<and> list_all (\<lambda>(k, v). map_of (uentries u2) k = Some v) (uentries u1))"

subsection \<open>originPt\<close>

fun originPt :: "OriginArg \<Rightarrow> Vec2" where
  "originPt (Named Topleft) = vec2 (-1) (-1)"
| "originPt (Named Top) = vec2 0 (-1)"
| "originPt (Named Topright) = vec2 1 (-1)"
| "originPt (Named Left) = vec2 (-1) 0"
| "originPt (Named Center) = vec2 0 0"
| "originPt (Named Right) = vec2 1 0"
| "originPt (Named Botleft) = vec2 (-1) 1"
| "originPt (Named Bot) = vec2 0 1"
| "originPt (Named Botright) = vec2 1 1"
| "originPt (Pt p) = p"


subsection \<open>Defaults of optional values\<close>

text \<open>\<^verbatim>\<open>v ?? d\<close>: the default replaces \<^verbatim>\<open>undefined\<close> and \<^verbatim>\<open>null\<close> only.\<close>

definition nullish :: "'a option \<Rightarrow> 'a \<Rightarrow> 'a" where
  "nullish v d = (case v of None \<Rightarrow> d | Some w \<Rightarrow> w)"

text \<open>\<^verbatim>\<open>v || d\<close> on an optional number: the default also replaces \<^verbatim>\<open>0\<close>.\<close>

definition or_num :: "real option \<Rightarrow> real \<Rightarrow> real" where
  "or_num v d = (case v of None \<Rightarrow> d | Some n \<Rightarrow> if n = 0 then d else n)"

text \<open>\<^verbatim>\<open>vec2(s)\<close> on a \<^verbatim>\<open>Vec2 | number\<close>: a number fills both components.\<close>

fun vec2_of :: "ScaleArg \<Rightarrow> Vec2" where
  "vec2_of (ScaleNum n) = vec2 n n"
| "vec2_of (ScaleVec p) = vec2 (vx p) (vy p)"

text \<open>\<^verbatim>\<open>conf.scale || 1\<close>: the default replaces an absent scale and the number \<^verbatim>\<open>0\<close>.\<close>

fun or_scale :: "ScaleArg option \<Rightarrow> ScaleArg" where
  "or_scale None = ScaleNum 1"
| "or_scale (Some (ScaleNum n)) = (if n = 0 then ScaleNum 1 else ScaleNum n)"
| "or_scale (Some (ScaleVec p)) = ScaleVec p"

text \<open>The empty configuration \<^verbatim>\<open>{}\<close> and the empty uniform set \<^verbatim>\<open>{}\<close>.\<close>

definition no_conf :: DrawConf where
  "no_conf = \<lparr>c_pos = None, c_width = None, c_height = None, c_scale = None, c_rot = None,
     c_color = None, c_origin = None, c_z = None, c_tex = None, c_quad = None, c_prog = None,
     c_uniform = None, c_size = None\<rparr>"

definition no_uniform :: Uniform where
  "no_uniform = \<lparr>uobj = None, uentries = []\<rparr>"

subsection \<open>The canvas\<close>

definition scale :: "GfxCtx \<Rightarrow> real" where
  "scale gfx = nullish (gconf_scale gfx) 1"

definition width :: "GfxCtx \<Rightarrow> real" where
  "width gfx = gl_drawingBufferWidth gfx / scale gfx"

definition height :: "GfxCtx \<Rightarrow> real" where
  "height gfx = gl_drawingBufferHeight gfx / scale gfx"

definition toNDC :: "GfxCtx \<Rightarrow> Vec2 \<Rightarrow> Vec2" where
  "toNDC gfx pt = vec2 (vx pt / width gfx * 2 - 1) (- vy pt / height gfx * 2 + 1)"

subsection \<open>flush and drawRaw\<close>

definition flush :: "GfxCtx \<Rightarrow> GfxCtx" where
  "flush gfx =
     (case curTex gfx of
        None \<Rightarrow> gfx
      | Some tex \<Rightarrow>
     (case curProg gfx of
        None \<Rightarrow> gfx
      | Some prog \<Rightarrow>
          if length (vqueue gfx) = 0 \<or> length (iqueue gfx) = 0 then gfx
          else gfx\<lparr>
            gl_drawElements := gl_drawElements gfx @
              [\<lparr>de_count = length (iqueue gfx), de_prog = prog, de_tex = tex,
                de_uniform = curUniform gfx,
                de_vertices = vqueue gfx, de_indices = iqueue gfx\<rparr>],
            iqueue := [],
            vqueue := [],
            drawCalls := drawCalls gfx + 1\<rparr>))"

text \<open>
  \<^verbatim>\<open>gfx.curUniform\<close> as an emit that requests \<open>uniform\<close> reads it. \<^verbatim>\<open>drawRaw\<close> keeps
  the requested object itself (\<^verbatim>\<open>gfx.curUniform = uniform\<close>), not a copy of it: when the
  object that is active is requested again, the active uniform set is that object with
  the entries it holds now, whatever it held when it became active.
\<close>

definition activeUniform :: "GfxCtx \<Rightarrow> Uniform \<Rightarrow> Uniform" where
  "activeUniform gfx uniform =
     (if sameObject (curUniform gfx) uniform then uniform else curUniform gfx)"

text \<open>
  The condition of the \<^verbatim>\<open>if\<close> in \<^verbatim>\<open>drawRaw\<close> that guards its call of \<^verbatim>\<open>flush()\<close>;
  \<^verbatim>\<open>!==\<close> on textures and programs compares the identities of the objects.
\<close>

definition flushes :: "GfxCtx \<Rightarrow> Vertex list \<Rightarrow> real list \<Rightarrow> GfxTexture \<Rightarrow> GfxProgram
    \<Rightarrow> Uniform \<Rightarrow> bool" where
  "flushes gfx verts indices tex prog uniform =
     (Some (tex_id tex) \<noteq> map_option tex_id (curTex gfx)
      \<or> Some (prog_id prog) \<noteq> map_option prog_id (curProg gfx)
      \<or> \<not> deepEq (activeUniform gfx uniform) uniform
      \<or> length (vqueue gfx) + length verts * STRIDE > QUEUE_COUNT
      \<or> length (iqueue gfx) + length indices > QUEUE_COUNT)"

text \<open>The nine floats that \<^verbatim>\<open>drawRaw\<close> queues for one vertex.\<close>

definition vertFloats :: "GfxCtx \<Rightarrow> Vertex \<Rightarrow> real list" where
  "vertFloats gfx v =
     (let pt = toNDC gfx (multVec2 (transform gfx) (xy (v_pos v)))
      in [vx pt, vy pt, z3 (v_pos v),
          vx (v_uv v), vy (v_uv v),
          cr (v_color v), cg (v_color v), cb (v_color v), ca (v_color v)])"

definition drawRaw :: "Vertex list \<Rightarrow> real list \<Rightarrow> GfxTexture option \<Rightarrow> GfxProgram option
    \<Rightarrow> Uniform option \<Rightarrow> GfxCtx \<Rightarrow> GfxCtx" where
  "drawRaw verts indices otex oprog ouniform gfx =
     (let tex = nullish otex (defTex gfx);
          prog = nullish oprog (defProg gfx);
          uniform = nullish ouniform no_uniform;
          gfx1 = (if flushes gfx verts indices tex prog uniform then flush gfx else gfx);
          gfx2 = gfx1\<lparr>curTex := Some tex, curProg := Some prog, curUniform := uniform\<rparr>;
          nIndices = map (\<lambda>i. i + real (length (vqueue gfx2)) / real STRIDE) indices;
          nVerts = concat (map (vertFloats gfx2) verts)
      in gfx2\<lparr>iqueue := iqueue gfx2 @ nIndices, vqueue := vqueue gfx2 @ nVerts\<rparr>)"

subsection \<open>The transform stack\<close>

definition pushMatrix :: "Mat4 \<Rightarrow> GfxCtx \<Rightarrow> GfxCtx" where
  "pushMatrix M gfx = gfx\<lparr>transform := clone M\<rparr>"

definition pushTranslate :: "Vec2 option \<Rightarrow> GfxCtx \<Rightarrow> GfxCtx" where
  "pushTranslate op gfx =
     (case op of
        None \<Rightarrow> gfx
      | Some p \<Rightarrow>
          if vx p = 0 \<and> vy p = 0 then gfx
          else gfx\<lparr>transform := mtranslate (transform gfx) p\<rparr>)"

definition pushScale :: "Vec2 option \<Rightarrow> GfxCtx \<Rightarrow> GfxCtx" where
  "pushScale op gfx =
     (case op of
        None \<Rightarrow> gfx
      | Some p \<Rightarrow>
          if vx p = 1 \<and> vy p = 1 then gfx
          else gfx\<lparr>transform := mscale (transform gfx) p\<rparr>)"

definition pushRotateX :: "real \<Rightarrow> GfxCtx \<Rightarrow> GfxCtx" where
  "pushRotateX t gfx = (if t = 0 then gfx else gfx\<lparr>transform := rotateX (transform gfx) t\<rparr>)"

definition pushRotateY :: "real \<Rightarrow> GfxCtx \<Rightarrow> GfxCtx" where
  "pushRotateY t gfx = (if t = 0 then gfx else gfx\<lparr>transform := rotateY (transform gfx) t\<rparr>)"

definition pushRotateZ :: "real \<Rightarrow> GfxCtx \<Rightarrow> GfxCtx" where
  "pushRotateZ t gfx = (if t = 0 then gfx else gfx\<lparr>transform := rotateZ (transform gfx) t\<rparr>)"

text \<open>\<^verbatim>\<open>Array.push\<close> adds at the end of the stack and \<^verbatim>\<open>Array.pop\<close> takes from there.\<close>

definition pushTransform :: "GfxCtx \<Rightarrow> GfxCtx" where
  "pushTransform gfx = gfx\<lparr>transformStack := transformStack gfx @ [clone (transform gfx)]\<rparr>"

definition popTransform :: "GfxCtx \<Rightarrow> GfxCtx" where
  "popTransform gfx =
     (if length (transformStack gfx) > 0
      then gfx\<lparr>transform := last (transformStack gfx),
               transformStack := butlast (transformStack gfx)\<rparr>
      else gfx)"

subsection \<open>drawQuad and the primitives on top of it\<close>

text \<open>The four corners that \<^verbatim>\<open>drawQuad\<close> passes to \<^verbatim>\<open>drawRaw\<close>.\<close>

definition quadVerts :: "real \<Rightarrow> real \<Rightarrow> real \<Rightarrow> Quad \<Rightarrow> Color \<Rightarrow> Vertex list" where
  "quadVerts w h z q col =
     [\<lparr>v_pos = vec3 (- w / 2) (h / 2) z, v_uv = vec2 (qx q) (qy q + qh q), v_color = col\<rparr>,
      \<lparr>v_pos = vec3 (- w / 2) (- h / 2) z, v_uv = vec2 (qx q) (qy q), v_color = col\<rparr>,
      \<lparr>v_pos = vec3 (w / 2) (- h / 2) z, v_uv = vec2 (qx q + qw q) (qy q), v_color = col\<rparr>,
      \<lparr>v_pos = vec3 (w / 2) (h / 2) z, v_uv = vec2 (qx q + qw q) (qy q + qh q),
        v_color = col\<rparr>]"

definition drawQuad :: "DrawConf \<Rightarrow> GfxCtx \<Rightarrow> GfxCtx" where
  "drawQuad conf gfx =
     (let w = or_num (c_width conf) 0;
          h = or_num (c_height conf) 0;
          pos = nullish (c_pos conf) (vec2 0 0);
          origin = originPt (nullish (c_origin conf) DEF_ORIGIN);
          offset = vscale origin (vscalen (vec2 w h) (- 0.5));
          sc = vec2_of (nullish (c_scale conf) (ScaleNum 1));
          rot = or_num (c_rot conf) 0;
          q = nullish (c_quad conf) (quad 0 0 1 1);
          z = 1 - nullish (c_z conf) 0;
          col = nullish (c_color conf) (rgba 1 1 1 1);
          gfx1 = pushTransform gfx;
          gfx2 = pushTranslate (Some pos) gfx1;
          gfx3 = pushScale (Some sc) gfx2;
          gfx4 = pushRotateZ rot gfx3;
          gfx5 = pushTranslate (Some offset) gfx4;
          gfx6 = drawRaw (quadVerts w h z q col) [0, 1, 3, 1, 2, 3]
                   (c_tex conf) (c_prog conf) (c_uniform conf) gfx5
      in popTransform gfx6)"

definition drawTexture :: "GfxTexture \<Rightarrow> DrawConf \<Rightarrow> GfxCtx \<Rightarrow> GfxCtx" where
  "drawTexture tex conf gfx =
     (let q = nullish (c_quad conf) (quad 0 0 1 1);
          w = tex_width tex * qw q;
          h = tex_height tex * qh q
      in drawQuad (conf\<lparr>c_tex := Some tex, c_quad := Some q,
                        c_width := Some w, c_height := Some h\<rparr>) gfx)"

definition drawRect :: "Vec2 \<Rightarrow> real \<Rightarrow> real \<Rightarrow> DrawConf \<Rightarrow> GfxCtx \<Rightarrow> GfxCtx" where
  "drawRect pos w h conf gfx =
     drawQuad (conf\<lparr>c_pos := Some pos, c_width := Some w, c_height := Some h\<rparr>) gfx"

definition drawLine :: "Vec2 \<Rightarrow> Vec2 \<Rightarrow> DrawConf \<Rightarrow> GfxCtx \<Rightarrow> GfxCtx" where
  "drawLine p1 p2 conf gfx =
     (let w = or_num (c_width conf) 1;
          h = vdist p1 p2;
          rot = pi / 2 - angle p1 p2
      in drawQuad (conf\<lparr>c_pos := Some (vscalen (vadd p1 p2) 0.5),
                        c_width := Some w, c_height := Some h,
                        c_rot := Some rot, c_origin := Some (Named Center)\<rparr>) gfx)"

text \<open>
  \<^verbatim>\<open>drawRectStroke\<close> computes four points and then calls \<^verbatim>\<open>drawLine\<close> four times; the
  arguments of the four calls, in the order of the calls, are \<open>rectStrokeLines\<close>.
\<close>

definition rectStrokeLines :: "Vec2 \<Rightarrow> real \<Rightarrow> real \<Rightarrow> DrawConf \<Rightarrow> (Vec2 \<times> Vec2) list" where
  "rectStrokeLines pos w h conf =
     (let offset = vscalen (vscale (originPt (nullish (c_origin conf) DEF_ORIGIN)) (vec2 w h)) 0.5;
          p1 = vsub (vadd pos (vec2 (- w / 2) (- h / 2))) offset;
          p2 = vsub (vadd pos (vec2 (- w / 2) (h / 2))) offset;
          p3 = vsub (vadd pos (vec2 (w / 2) (h / 2))) offset;
          p4 = vsub (vadd pos (vec2 (w / 2) (- h / 2))) offset
      in [(p1, p2), (p2, p3), (p3, p4), (p4, p1)])"

definition drawRectStroke :: "Vec2 \<Rightarrow> real \<Rightarrow> real \<Rightarrow> DrawConf \<Rightarrow> GfxCtx \<Rightarrow> GfxCtx" where
  "drawRectStroke pos w h conf gfx =
     foldl (\<lambda>gfx' (pa, pb). drawLine pa pb conf gfx') gfx (rectStrokeLines pos w h conf)"


subsection \<open>Text layout\<close>

text \<open>
  A text is a \<^typ>\<open>string\<close>, one \<^typ>\<open>char\<close> for each of the characters that
  \<^verbatim>\<open>text.split("")\<close> yields, and the character map of a font has one key per character.

  The variables of the first loop of \<^verbatim>\<open>fmtText\<close>: the cursor, the height and width
  measured so far, and the lines collected so far.
\<close>

record FmtAcc =
  curX :: real
  th :: real
  tw :: real
  flines :: "string list"

text \<open>
  \<^verbatim>\<open>flines[flines.length - 1].push(char)\<close>. The list of lines starts as \<^verbatim>\<open>[[]]\<close> and
  only grows (\<open>fmtLoop_flines_nonempty\<close>), so the first equation is never used.
\<close>

fun pushLast :: "string list \<Rightarrow> char \<Rightarrow> string list" where
  "pushLast [] c = []"
| "pushLast [l] c = [l @ [c]]"
| "pushLast (l # ls) c = l # pushLast ls c"

text \<open>The line break \<^verbatim>\<open>"\n"\<close>.\<close>

definition NL :: char where
  "NL = CHR 0x0A"

text \<open>\<^verbatim>\<open>conf.width ? (curX + cw > conf.width) : false\<close>.\<close>

definition exceedsWrap :: "real option \<Rightarrow> real \<Rightarrow> real \<Rightarrow> bool" where
  "exceedsWrap ow cx cw = (case ow of None \<Rightarrow> False | Some w \<Rightarrow> if w = 0 then False else cx + cw > w)"

text \<open>One round of the loop \<^verbatim>\<open>for (const char of chars)\<close>.\<close>

definition fmtStep :: "real option \<Rightarrow> real \<Rightarrow> real \<Rightarrow> FmtAcc \<Rightarrow> char \<Rightarrow> FmtAcc" where
  "fmtStep ow cw ch s char =
     (let s1 = (if char = NL \<or> exceedsWrap ow (curX s) cw
                then s\<lparr>th := th s + ch, curX := 0, flines := flines s @ [[]]\<rparr>
                else s);
          s2 = (if char \<noteq> NL
                then s1\<lparr>flines := pushLast (flines s1) char, curX := curX s1 + cw\<rparr>
                else s1)
      in s2\<lparr>tw := max (tw s2) (curX s2)\<rparr>)"

definition fmtLoop :: "real option \<Rightarrow> real \<Rightarrow> real \<Rightarrow> string \<Rightarrow> FmtAcc" where
  "fmtLoop ow cw ch chars =
     foldl (fmtStep ow cw ch) \<lparr>curX = 0, th = ch, tw = 0, flines = [[]]\<rparr> chars"

text \<open>\<^verbatim>\<open>scale\<close>, \<^verbatim>\<open>cw\<close> and \<^verbatim>\<open>ch\<close> of \<^verbatim>\<open>fmtText\<close>: the scale of a glyph and the size of its cell.\<close>

definition fmtScale :: "GfxFont \<Rightarrow> DrawConf \<Rightarrow> Vec2" where
  "fmtScale font conf =
     (let gh = fqh font * tex_height (ftex font);
          size = or_num (c_size conf) gh
      in vscale (vec2 (size / gh) (size / gh)) (vec2_of (or_scale (c_scale conf))))"

definition fmtCw :: "GfxFont \<Rightarrow> DrawConf \<Rightarrow> real" where
  "fmtCw font conf = vx (fmtScale font conf) * (fqw font * tex_width (ftex font))"

definition fmtCh :: "GfxFont \<Rightarrow> DrawConf \<Rightarrow> real" where
  "fmtCh font conf = vy (fmtScale font conf) * (fqh font * tex_height (ftex font))"

text \<open>The lines \<^verbatim>\<open>flines\<close> that the first loop of \<^verbatim>\<open>fmtText\<close> has collected at its end.\<close>

definition fmtLines :: "string \<Rightarrow> GfxFont \<Rightarrow> DrawConf \<Rightarrow> string list" where
  "fmtLines text font conf =
     flines (fmtLoop (c_width conf) (fmtCw font conf) (fmtCh font conf) text)"

text \<open>\<^verbatim>\<open>Array.forEach((e, i) => ...)\<close> visits each element with its index.\<close>

definition indexed :: "'a list \<Rightarrow> (nat \<times> 'a) list" where
  "indexed xs = zip [0..<length xs] xs"

text \<open>The body of \<^verbatim>\<open>line.forEach((char, cno) => ...)\<close>: the glyph of one character, if any.\<close>

definition fmtGlyph :: "GfxFont \<Rightarrow> DrawConf \<Rightarrow> Vec2 \<Rightarrow> Vec2 \<Rightarrow> real \<Rightarrow> real \<Rightarrow> real \<Rightarrow> real
    \<Rightarrow> real \<Rightarrow> nat \<Rightarrow> nat \<times> char \<Rightarrow> FormattedChar option" where
  "fmtGlyph font conf pos sc cw ch ox oy oxl lno ic =
     (case ic of (cno, char) \<Rightarrow>
        let px = real cno * cw;
            py = real lno * ch
        in (case fmap font char of
              None \<Rightarrow> None
            | Some qpos \<Rightarrow>
                Some \<lparr>fc_tex = ftex font,
                      fc_quad = quad (vx qpos) (vy qpos) (fqw font) (fqh font),
                      fc_ch = char,
                      fc_pos = vec2 (vx pos + px + ox + oxl) (vy pos + py + oy),
                      fc_color = c_color conf,
                      fc_origin = c_origin conf,
                      fc_scale = sc,
                      fc_z = c_z conf\<rparr>))"

definition fmtText :: "string \<Rightarrow> GfxFont \<Rightarrow> DrawConf \<Rightarrow> FormattedText" where
  "fmtText text font conf =
     (let sc = fmtScale font conf;
          cw = fmtCw font conf;
          ch = fmtCh font conf;
          s = fmtLoop (c_width conf) cw ch text;
          tw1 = (case c_width conf of None \<Rightarrow> tw s | Some w \<Rightarrow> if w = 0 then tw s else w);
          pos = nullish (c_pos conf) (vec2 0 0);
          offset = vscalen (originPt (nullish (c_origin conf) DEF_ORIGIN)) 0.5;
          ox = - vx offset * cw - (vx offset + 0.5) * (tw1 - cw);
          oy = - vy offset * ch - (vy offset + 0.5) * (th s - ch);
          fchars = concat (map (\<lambda>(lno, line).
              let oxl = (tw1 - real (length line) * cw) * (vx offset + 0.5)
              in List.map_filter (fmtGlyph font conf pos sc cw ch ox oy oxl lno) (indexed line))
            (indexed (flines s)))
      in \<lparr>ft_width = tw1, ft_height = th s, ft_chars = fchars\<rparr>)"

text \<open>The configuration that \<^verbatim>\<open>drawFmtText\<close> passes to \<^verbatim>\<open>drawQuad\<close> for one glyph.\<close>

definition glyphConf :: "FormattedChar \<Rightarrow> DrawConf" where
  "glyphConf fc =
     \<lparr>c_pos = Some (fc_pos fc),
      c_width = Some (tex_width (fc_tex fc) * qw (fc_quad fc)),
      c_height = Some (tex_height (fc_tex fc) * qh (fc_quad fc)),
      c_scale = Some (ScaleVec (fc_scale fc)),
      c_rot = None,
      c_color = fc_color fc,
      c_origin = Some (Named Center),
      c_z = fc_z fc,
      c_tex = Some (fc_tex fc),
      c_quad = Some (fc_quad fc),
      c_prog = None,
      c_uniform = None,
      c_size = None\<rparr>"

definition drawFmtText :: "FormattedText \<Rightarrow> GfxCtx \<Rightarrow> GfxCtx" where
  "drawFmtText ftext gfx = foldl (\<lambda>gfx' fc. drawQuad (glyphConf fc) gfx') gfx (ft_chars ftext)"

definition drawText :: "string \<Rightarrow> GfxFont \<Rightarrow> DrawConf \<Rightarrow> GfxCtx \<Rightarrow> GfxCtx" where
  "drawText txt font conf gfx = drawFmtText (fmtText txt font conf) gfx"

subsection \<open>makeFont\<close>

text \<open>
  \<^verbatim>\<open>n % d\<close> on numbers: the remainder of the division that truncates towards zero.
\<close>

definition jsTrunc :: "real \<Rightarrow> int" where
  "jsTrunc v = (if 0 \<le> v then \<lfloor>v\<rfloor> else \<lceil>v\<rceil>)"

definition jsMod :: "real \<Rightarrow> real \<Rightarrow> real" where
  "jsMod n d = n - d * of_int (jsTrunc (n / d))"

text \<open>
  The loop over \<^verbatim>\<open>chars.split("").entries()\<close> gives every character of the character
  set, the line break included, the cell of its position; a later occurrence of a
  character replaces an earlier one.
\<close>

definition makeFont :: "GfxTexture \<Rightarrow> real \<Rightarrow> real \<Rightarrow> string \<Rightarrow> GfxFont" where
  "makeFont tex gw gh chars =
     (let cols = tex_width tex / gw;
          rows = tex_height tex / gh;
          qw = 1 / cols;
          qh = 1 / rows;
          cmap = foldl (\<lambda>mp (i, ch).
                   mp(ch \<mapsto> vec2 (jsMod (real i) cols * qw) (of_int \<lfloor>real i / cols\<rfloor> * qh)))
                 Map.empty (indexed chars)
      in \<lparr>ftex = tex, fmap = cmap, fqw = qw, fqh = qh\<rparr>)"

subsection \<open>The frame\<close>

definition frameStart :: "GfxCtx \<Rightarrow> GfxCtx" where
  "frameStart gfx =
     (let gfx1 = (case gconf_clearColor gfx of
                    None \<Rightarrow>
                      drawQuad (no_conf\<lparr>
                        c_width := Some (width gfx),
                        c_height := Some (height gfx),
                        c_quad := Some (quad 0 0 (width gfx * scale gfx / BG_GRID_SIZE)
                                                  (height gfx * scale gfx / BG_GRID_SIZE)),
                        c_tex := Some (bgTex gfx)\<rparr>) gfx
                  | Some c \<Rightarrow> gfx)
      in gfx1\<lparr>drawCalls := 0, transformStack := [], transform := mat4\<rparr>)"

definition frameEnd :: "GfxCtx \<Rightarrow> GfxCtx" where
  "frameEnd gfx = (let gfx1 = flush gfx in gfx1\<lparr>lastDrawCalls := drawCalls gfx1\<rparr>)"

text \<open>
  The context that \<^verbatim>\<open>gfxInit\<close> builds, for a drawing buffer of the given size: the default
  program, the 1\<times>1 white texture and the 2\<times>2 background texture are the first objects it
  creates.
\<close>

definition initCtx :: "real \<Rightarrow> real \<Rightarrow> Color option \<Rightarrow> real option \<Rightarrow> GfxCtx" where
  "initCtx bw bh occ osc =
     \<lparr>vqueue = [], iqueue = [],
      clearColor = nullish occ (rgba 0 0 0 1),
      defProg = \<lparr>prog_id = 0\<rparr>,
      curProg = Some \<lparr>prog_id = 0\<rparr>,
      defTex = \<lparr>tex_id = 0, tex_width = 1, tex_height = 1\<rparr>,
      curTex = Some \<lparr>tex_id = 0, tex_width = 1, tex_height = 1\<rparr>,
      bgTex = \<lparr>tex_id = 1, tex_width = 2, tex_height = 2\<rparr>,
      curUniform = no_uniform,
      transform = mat4, transformStack = [],
      drawCalls = 0, lastDrawCalls = 0,
      gconf_clearColor = occ, gconf_scale = osc,
      gl_drawingBufferWidth = bw, gl_drawingBufferHeight = bh,
      gl_drawElements = []\<rparr>"

definition gfxInit :: "real \<Rightarrow> real \<Rightarrow> Color option \<Rightarrow> real option \<Rightarrow> GfxCtx" where
  "gfxInit bw bh occ osc = frameEnd (frameStart (initCtx bw bh occ osc))"


subsection \<open>The invariant of the queues\<close>

text \<open>
  An index is valid for \<open>n\<close> queued vertices when it is one of the numbers
  \<open>0, \<dots>, n - 1\<close>.
\<close>

definition validIndex :: "nat \<Rightarrow> real \<Rightarrow> bool" where
  "validIndex n i = (0 \<le> i \<and> of_int \<lfloor>i\<rfloor> = i \<and> i < real n)"

text \<open>
  The vertex queue holds whole vertices of \<open>STRIDE\<close> floats, and every queued index
  points at one of them.
\<close>

definition queueInv :: "GfxCtx \<Rightarrow> bool" where
  "queueInv gfx =
     (length (vqueue gfx) mod STRIDE = 0
      \<and> list_all (validIndex (length (vqueue gfx) div STRIDE)) (iqueue gfx))"

subsection \<open>The states that drawing reaches\<close>

text \<open>
  \<^verbatim>\<open>drawRaw\<close> is local to \<^verbatim>\<open>gfxInit\<close> and \<^verbatim>\<open>drawQuad\<close> is its only caller, always with
  four vertices and six indices. So in every state that the drawing operations reach
  from the fresh context the two queues are empty together or not at all, and a texture
  and a program are active.
\<close>

definition batchReady :: "GfxCtx \<Rightarrow> bool" where
  "batchReady gfx =
     ((vqueue gfx = []) = (iqueue gfx = []) \<and> curTex gfx \<noteq> None \<and> curProg gfx \<noteq> None)"

text \<open>The vertices of the quad that \<^verbatim>\<open>drawQuad\<close> emits for a configuration.\<close>

definition confVerts :: "DrawConf \<Rightarrow> Vertex list" where
  "confVerts conf =
     quadVerts (or_num (c_width conf) 0) (or_num (c_height conf) 0) (1 - nullish (c_z conf) 0)
       (nullish (c_quad conf) (quad 0 0 1 1)) (nullish (c_color conf) (rgba 1 1 1 1))"

subsection \<open>Reading the vertex queue\<close>

text \<open>The NDC position (the first two floats) of each vertex of a list of vertex floats.\<close>

fun ndcXY :: "real list \<Rightarrow> (real \<times> real) list" where
  "ndcXY (px # py # pz # tu # tv # pr # pg # pb # pa # rest) = (px, py) # ndcXY rest"
| "ndcXY fs = []"

text \<open>Four points that are the corners of the square with the given centre and half-extent.\<close>

definition squareAround :: "real \<Rightarrow> real \<Rightarrow> real \<Rightarrow> (real \<times> real) list \<Rightarrow> bool" where
  "squareAround mx my e pts =
     (length pts = 4
      \<and> set pts = {(mx - e, my - e), (mx - e, my + e), (mx + e, my - e), (mx + e, my + e)})"

text \<open>The floats of the vertices that the last emit of four vertices has queued.\<close>

definition lastQuad :: "GfxCtx \<Rightarrow> real list" where
  "lastQuad gfx = drop (length (vqueue gfx) - 4 * STRIDE) (vqueue gfx)"

subsection \<open>The edges of a rectangle on the screen\<close>

text \<open>
  The corner of the rectangle of the given position, width, height and anchor that lies
  \<open>sx\<close> half-widths and \<open>sy\<close> half-heights from its centre. On the screen \<open>y\<close> grows
  downwards: the top corners have \<open>sy = -1\<close>, the left corners have \<open>sx = -1\<close>.
\<close>

definition rectCorner :: "Vec2 \<Rightarrow> real \<Rightarrow> real \<Rightarrow> DrawConf \<Rightarrow> real \<Rightarrow> real \<Rightarrow> Vec2" where
  "rectCorner pos w h conf sx sy =
     vec2 (vx pos + sx * w / 2 - vx (originPt (nullish (c_origin conf) DEF_ORIGIN)) * w / 2)
          (vy pos + sy * h / 2 - vy (originPt (nullish (c_origin conf) DEF_ORIGIN)) * h / 2)"

definition topEdge :: "Vec2 \<Rightarrow> real \<Rightarrow> real \<Rightarrow> DrawConf \<Rightarrow> Vec2 \<times> Vec2" where
  "topEdge pos w h conf = (rectCorner pos w h conf (-1) (-1), rectCorner pos w h conf 1 (-1))"

definition rightEdge :: "Vec2 \<Rightarrow> real \<Rightarrow> real \<Rightarrow> DrawConf \<Rightarrow> Vec2 \<times> Vec2" where
  "rightEdge pos w h conf = (rectCorner pos w h conf 1 (-1), rectCorner pos w h conf 1 1)"

definition bottomEdge :: "Vec2 \<Rightarrow> real \<Rightarrow> real \<Rightarrow> DrawConf \<Rightarrow> Vec2 \<times> Vec2" where
  "bottomEdge pos w h conf = (rectCorner pos w h conf 1 1, rectCorner pos w h conf (-1) 1)"

definition leftEdge :: "Vec2 \<Rightarrow> real \<Rightarrow> real \<Rightarrow> DrawConf \<Rightarrow> Vec2 \<times> Vec2" where
  "leftEdge pos w h conf = (rectCorner pos w h conf (-1) 1, rectCorner pos w h conf (-1) (-1))"

text \<open>A line runs along an edge, in one direction or the other.\<close>

definition alongEdge :: "Vec2 \<times> Vec2 \<Rightarrow> Vec2 \<times> Vec2 \<Rightarrow> bool" where
  "alongEdge e l = (l = e \<or> l = (snd e, fst e))"

subsection \<open>Measuring the lines of a text\<close>

text \<open>
  The width of the widest of the lines, each character taking one cell of width \<open>cw\<close>
  (and 0 when no line is wider).
\<close>

definition maxLineWidth :: "real \<Rightarrow> string list \<Rightarrow> real" where
  "maxLineWidth cw ls = foldr (\<lambda>l acc. max (real (length l) * cw) acc) ls 0"

text \<open>
  What the first loop of \<^verbatim>\<open>fmtText\<close> keeps true of its variables: there is a current
  line, the height is one line height per line, the cursor stands behind the current line,
  and the width is that of the widest line.
\<close>

definition fmtInv :: "real \<Rightarrow> real \<Rightarrow> FmtAcc \<Rightarrow> bool" where
  "fmtInv cw ch s =
     (flines s \<noteq> []
      \<and> th s = real (length (flines s)) * ch
      \<and> curX s = real (length (last (flines s))) * cw
      \<and> tw s = maxLineWidth cw (flines s))"

subsection \<open>Concrete inputs\<close>

text \<open>The four vertices of a white quad of 10 by 10, as \<^verbatim>\<open>drawQuad\<close> emits them.\<close>

definition exQuad :: "Vertex list" where
  "exQuad = quadVerts 10 10 1 (quad 0 0 1 1) (rgba 1 1 1 1)"

text \<open>
  The fresh context after 1820 calls of \<^verbatim>\<open>drawQuad\<close> with the empty configuration:
  65520 of the 65536 places of the vertex queue are taken.
\<close>

definition filledCtx :: GfxCtx where
  "filledCtx = (drawQuad no_conf ^^ 1820) (initCtx 100 100 None None)"

text \<open>
  Three uniform sets: the first two hold the same entries in another order in two
  different objects, the third is another object again and differs from the first in
  the value of one number. Then the first object after the caller has set its number to 2.
\<close>

definition exUniformA :: Uniform where
  "exUniformA = \<lparr>uobj = Some 1, uentries = [(''u_time'', UNum 1), (''u_dir'', UVec2 (vec2 0 1))]\<rparr>"

definition exUniformB :: Uniform where
  "exUniformB = \<lparr>uobj = Some 2, uentries = [(''u_dir'', UVec2 (vec2 0 1)), (''u_time'', UNum 1)]\<rparr>"

definition exUniformA2 :: Uniform where
  "exUniformA2 = \<lparr>uobj = Some 1, uentries = [(''u_time'', UNum 2), (''u_dir'', UVec2 (vec2 0 1))]\<rparr>"

definition exUniformC :: Uniform where
  "exUniformC = \<lparr>uobj = Some 3, uentries = [(''u_time'', UNum 2), (''u_dir'', UVec2 (vec2 0 1))]\<rparr>"

text \<open>
  A quad of 10 by 10 anchored at its centre, not rotated, at position (0, 0).
\<close>

definition centredQuadConf :: DrawConf where
  "centredQuadConf = no_conf\<lparr>c_pos := Some (vec2 0 0), c_width := Some 10, c_height := Some 10,
     c_rot := Some 0, c_origin := Some (Named Center)\<rparr>"

text \<open>
  A font of two glyph cells of 8 by 8 pixels, for \<open>a\<close> and \<open>b\<close>; a font whose character
  set is \<open>a\<close> and the line break; a configuration with a wrap width of 100.
\<close>

definition exFont :: GfxFont where
  "exFont = makeFont \<lparr>tex_id = 2, tex_width = 16, tex_height = 8\<rparr> 8 8 ''ab''"

definition nlFont :: GfxFont where
  "nlFont = makeFont \<lparr>tex_id = 2, tex_width = 16, tex_height = 8\<rparr> 8 8 [CHR ''a'', NL]"

definition wrapConf :: DrawConf where
  "wrapConf = no_conf\<lparr>c_width := Some 100\<rparr>"

section \<open>Properties\<close>

subsection \<open>flush\<close>

text \<open>
  C3. \<^verbatim>\<open>flush()\<close> changes nothing (queues, batch state, draw-call counter, draw calls
  issued) whenever the vertex queue or the index queue is empty or no texture or no
  program is active. Otherwise it issues exactly one indexed draw call, whose count is
  the length of the whole index queue, with the active program, texture and uniforms;
  it empties both queues, adds one to the draw-call counter and keeps the batch state.
\<close>

theorem flush_noop_or_one_draw:
  "(curTex gfx = None \<or> curProg gfx = None \<or> vqueue gfx = [] \<or> iqueue gfx = []
      \<longrightarrow> flush gfx = gfx)
   \<and> (curTex gfx = Some tex \<and> curProg gfx = Some prog \<and> vqueue gfx \<noteq> [] \<and> iqueue gfx \<noteq> []
      \<longrightarrow> flush gfx = gfx\<lparr>
            gl_drawElements := gl_drawElements gfx @
              [\<lparr>de_count = length (iqueue gfx), de_prog = prog, de_tex = tex,
                de_uniform = curUniform gfx,
                de_vertices = vqueue gfx, de_indices = iqueue gfx\<rparr>],
            iqueue := [], vqueue := [], drawCalls := drawCalls gfx + 1\<rparr>
        \<and> length (gl_drawElements (flush gfx)) = length (gl_drawElements gfx) + 1
        \<and> de_count (last (gl_drawElements (flush gfx))) = length (iqueue gfx)
        \<and> vqueue (flush gfx) = [] \<and> iqueue (flush gfx) = []
        \<and> drawCalls (flush gfx) = drawCalls gfx + 1
        \<and> curTex (flush gfx) = curTex gfx \<and> curProg (flush gfx) = curProg gfx
        \<and> curUniform (flush gfx) = curUniform gfx)"
  by (auto simp: flush_def split: option.splits)

theorem flush_noop_or_one_draw_witness:
  "flush (initCtx 100 100 None None) = initCtx 100 100 None None
   \<and> drawCalls (flush ((initCtx 100 100 None None)
        \<lparr>vqueue := [0, 0, 0, 0, 0, 0, 0, 0, 0], iqueue := [0]\<rparr>)) = 1
   \<and> de_count (last (gl_drawElements (flush ((initCtx 100 100 None None)
        \<lparr>vqueue := [0, 0, 0, 0, 0, 0, 0, 0, 0], iqueue := [0]\<rparr>)))) = 1"
  using flush_noop_or_one_draw [of "initCtx 100 100 None None"]
    flush_noop_or_one_draw [of
      "(initCtx 100 100 None None)\<lparr>vqueue := [0, 0, 0, 0, 0, 0, 0, 0, 0], iqueue := [0]\<rparr>"
      "\<lparr>tex_id = 0, tex_width = 1, tex_height = 1\<rparr>" "\<lparr>prog_id = 0\<rparr>"]
  by (simp add: initCtx_def)

subsection \<open>Helper lemmas: the transform stack\<close>

lemma clone_id: "clone M = M"
  by (simp add: clone_def)

lemma flush_keeps_transform:
  "transform (flush gfx) = transform gfx" "transformStack (flush gfx) = transformStack gfx"
  by (simp_all add: flush_def split: option.splits)

lemma drawRaw_keeps_transform:
  "transform (drawRaw vs is ot op ou gfx) = transform gfx"
  "transformStack (drawRaw vs is ot op ou gfx) = transformStack gfx"
  by (simp_all add: drawRaw_def Let_def flush_keeps_transform)

lemma pushTranslate_keeps_stack: "transformStack (pushTranslate p gfx) = transformStack gfx"
  by (simp add: pushTranslate_def split: option.splits)

lemma pushScale_keeps_stack: "transformStack (pushScale p gfx) = transformStack gfx"
  by (simp add: pushScale_def split: option.splits)

lemma pushRotateZ_keeps_stack: "transformStack (pushRotateZ t gfx) = transformStack gfx"
  by (simp add: pushRotateZ_def)

lemma drawQuad_keeps_transform:
  "transform (drawQuad conf gfx) = transform gfx \<and>
   transformStack (drawQuad conf gfx) = transformStack gfx"
  by (simp add: drawQuad_def Let_def popTransform_def drawRaw_keeps_transform
      pushTranslate_keeps_stack pushScale_keeps_stack pushRotateZ_keeps_stack
      pushTransform_def clone_id)

lemma foldl_keeps:
  assumes "\<And>g e. P (f g e) = P g"
  shows "P (foldl f g es) = P g"
  using assms by (induction es arbitrary: g) simp_all

lemma foldl_inv:
  assumes "P g" "\<And>g e. P g \<Longrightarrow> P (f g e)"
  shows "P (foldl f g es)"
  using assms by (induction es arbitrary: g) simp_all

lemma drawLine_keeps_transform:
  "transform (drawLine p1 p2 conf gfx) = transform gfx \<and>
   transformStack (drawLine p1 p2 conf gfx) = transformStack gfx"
  by (simp add: drawLine_def Let_def drawQuad_keeps_transform)

lemma drawRectStroke_keeps_transform:
  "transform (drawRectStroke pos w h conf gfx) = transform gfx \<and>
   transformStack (drawRectStroke pos w h conf gfx) = transformStack gfx"
  unfolding drawRectStroke_def
  by (rule conjI; rule foldl_keeps) (simp_all add: drawLine_keeps_transform split: prod.splits)

lemma drawFmtText_keeps_transform:
  "transform (drawFmtText ft gfx) = transform gfx \<and>
   transformStack (drawFmtText ft gfx) = transformStack gfx"
  unfolding drawFmtText_def
  by (rule conjI; rule foldl_keeps) (simp_all add: drawQuad_keeps_transform)

subsection \<open>The transform stack\<close>

text \<open>
  C9. For every active transform and every translation vector (absent, zero or not),
  \<^verbatim>\<open>pushTransform(); pushTranslate(v); popTransform()\<close> leaves the active transform as it
  was before the push; the stack and the rest of the state are as before, too.
\<close>

theorem push_translate_pop_restores:
  "transform (popTransform (pushTranslate v (pushTransform gfx))) = transform gfx
   \<and> transformStack (popTransform (pushTranslate v (pushTransform gfx))) = transformStack gfx
   \<and> popTransform (pushTranslate v (pushTransform gfx)) = gfx"
  by (simp add: popTransform_def pushTransform_def pushTranslate_def clone_id
      split: option.splits)

theorem push_translate_pop_restores_witness:
  "transform (popTransform (pushTranslate (Some (vec2 3 4))
      (pushTransform (initCtx 100 100 None None)))) = mat4
   \<and> transform (popTransform (pushTranslate (Some (vec2 0 0))
      (pushTransform (initCtx 100 100 None None)))) = mat4"
  using push_translate_pop_restores [of "Some (vec2 3 4)" "initCtx 100 100 None None"]
    push_translate_pop_restores [of "Some (vec2 0 0)" "initCtx 100 100 None None"]
  by (simp add: initCtx_def)

text \<open>
  C10. Each drawing operation (\<^verbatim>\<open>drawQuad\<close>, \<^verbatim>\<open>drawTexture\<close>, \<^verbatim>\<open>drawRect\<close>,
  \<^verbatim>\<open>drawRectStroke\<close>, \<^verbatim>\<open>drawLine\<close>, \<^verbatim>\<open>drawText\<close>, \<^verbatim>\<open>drawFmtText\<close>) leaves the active
  transform and the transform stack exactly as they were before the call.
\<close>

theorem drawing_keeps_transform:
  "transform (drawQuad conf gfx) = transform gfx
   \<and> transformStack (drawQuad conf gfx) = transformStack gfx
   \<and> transform (drawTexture tex conf gfx) = transform gfx
   \<and> transformStack (drawTexture tex conf gfx) = transformStack gfx
   \<and> transform (drawRect pos w h conf gfx) = transform gfx
   \<and> transformStack (drawRect pos w h conf gfx) = transformStack gfx
   \<and> transform (drawRectStroke pos w h conf gfx) = transform gfx
   \<and> transformStack (drawRectStroke pos w h conf gfx) = transformStack gfx
   \<and> transform (drawLine p1 p2 conf gfx) = transform gfx
   \<and> transformStack (drawLine p1 p2 conf gfx) = transformStack gfx
   \<and> transform (drawText txt font conf gfx) = transform gfx
   \<and> transformStack (drawText txt font conf gfx) = transformStack gfx
   \<and> transform (drawFmtText ftext gfx) = transform gfx
   \<and> transformStack (drawFmtText ftext gfx) = transformStack gfx"
  by (simp add: drawQuad_keeps_transform drawLine_keeps_transform
      drawRectStroke_keeps_transform drawFmtText_keeps_transform
      drawTexture_def drawRect_def drawText_def Let_def)

theorem drawing_keeps_transform_witness:
  "transform (drawQuad (no_conf\<lparr>c_pos := Some (vec2 3 4), c_rot := Some 1\<rparr>)
      (pushTransform (initCtx 100 100 None None))) = mat4
   \<and> transformStack (drawQuad (no_conf\<lparr>c_pos := Some (vec2 3 4), c_rot := Some 1\<rparr>)
      (pushTransform (initCtx 100 100 None None))) = [mat4]"
  using drawing_keeps_transform [of "no_conf\<lparr>c_pos := Some (vec2 3 4), c_rot := Some 1\<rparr>"
      "pushTransform (initCtx 100 100 None None)"]
  by (simp add: initCtx_def pushTransform_def clone_id)

subsection \<open>Helper lemmas: the queues\<close>

lemma length_vertFloats: "length (vertFloats gfx v) = 9"
  by (simp add: vertFloats_def Let_def)

lemma length_concat_vertFloats: "length (concat (map (vertFloats gfx) vs)) = 9 * length vs"
  by (induction vs) (simp_all add: length_vertFloats)

lemma validIndex_mono: "validIndex n i \<Longrightarrow> n \<le> k \<Longrightarrow> validIndex k i"
  by (auto simp: validIndex_def)

lemma validIndex_shift: "validIndex k i \<Longrightarrow> validIndex (n + k) (i + real n)"
  by (auto simp: validIndex_def)

lemma queueInv_flush: "queueInv gfx \<Longrightarrow> queueInv (flush gfx)"
  by (auto simp: queueInv_def flush_def split: option.splits)

lemma drawRaw_queues:
  "vqueue (drawRaw vs is ot op ou gfx) =
     vqueue (if flushes gfx vs is (nullish ot (defTex gfx)) (nullish op (defProg gfx))
                  (nullish ou no_uniform) then flush gfx else gfx)
     @ concat (map (vertFloats ((if flushes gfx vs is (nullish ot (defTex gfx)) (nullish op (defProg gfx))
                  (nullish ou no_uniform) then flush gfx else gfx)
          \<lparr>curTex := Some (nullish ot (defTex gfx)), curProg := Some (nullish op (defProg gfx)),
            curUniform := nullish ou no_uniform\<rparr>)) vs)"
  "iqueue (drawRaw vs is ot op ou gfx) =
     iqueue (if flushes gfx vs is (nullish ot (defTex gfx)) (nullish op (defProg gfx))
                  (nullish ou no_uniform) then flush gfx else gfx)
     @ map (\<lambda>i. i + real (length (vqueue (if flushes gfx vs is (nullish ot (defTex gfx)) (nullish op (defProg gfx))
                  (nullish ou no_uniform) then flush gfx else gfx))) / real STRIDE) is"
  by (simp_all add: drawRaw_def Let_def)

lemma queueInv_append:
  assumes "queueInv g" "list_all (validIndex (length vs)) is"
  shows "length (vqueue g @ concat (map (vertFloats g') vs)) mod STRIDE = 0"
    and "list_all (validIndex (length (vqueue g @ concat (map (vertFloats g') vs)) div STRIDE))
          (iqueue g @ map (\<lambda>i. i + real (length (vqueue g)) / real STRIDE) is)"
proof -
  from assms(1) obtain n where n: "length (vqueue g) = 9 * n"
    by (auto simp: queueInv_def STRIDE_def)
  have old: "list_all (validIndex n) (iqueue g)"
    using assms(1) n by (simp add: queueInv_def STRIDE_def)
  show "length (vqueue g @ concat (map (vertFloats g') vs)) mod STRIDE = 0"
    by (simp add: n length_concat_vertFloats STRIDE_def)
  have len: "length (vqueue g @ concat (map (vertFloats g') vs)) div STRIDE = n + length vs"
    by (simp add: n length_concat_vertFloats STRIDE_def)
  have a: "list_all (validIndex (n + length vs)) (iqueue g)"
    using old by (auto simp: list_all_iff intro: validIndex_mono)
  have b: "list_all (validIndex (n + length vs))
      (map (\<lambda>i. i + real (length (vqueue g)) / real STRIDE) is)"
    using assms(2) by (auto simp: list_all_iff n STRIDE_def intro: validIndex_shift)
  show "list_all (validIndex (length (vqueue g @ concat (map (vertFloats g') vs)) div STRIDE))
          (iqueue g @ map (\<lambda>i. i + real (length (vqueue g)) / real STRIDE) is)"
    unfolding len using a b by simp
qed

lemma queueInv_drawRaw:
  assumes "queueInv gfx" "list_all (validIndex (length vs)) is"
  shows "queueInv (drawRaw vs is ot op ou gfx)"
proof -
  let ?g = "if flushes gfx vs is (nullish ot (defTex gfx)) (nullish op (defProg gfx))
                  (nullish ou no_uniform) then flush gfx else gfx"
  have "queueInv ?g" using assms(1) by (simp add: queueInv_flush)
  from queueInv_append[OF this assms(2)] show ?thesis
    unfolding queueInv_def drawRaw_queues by simp
qed


lemma queueInv_queues: "vqueue g' = vqueue g \<Longrightarrow> iqueue g' = iqueue g \<Longrightarrow> queueInv g' = queueInv g"
  by (simp add: queueInv_def)

lemma pushTranslate_queues: "vqueue (pushTranslate p g) = vqueue g" "iqueue (pushTranslate p g) = iqueue g"
  by (simp_all add: pushTranslate_def split: option.splits)

lemma pushScale_queues: "vqueue (pushScale p g) = vqueue g" "iqueue (pushScale p g) = iqueue g"
  by (simp_all add: pushScale_def split: option.splits)

lemma pushRotateZ_queues: "vqueue (pushRotateZ t g) = vqueue g" "iqueue (pushRotateZ t g) = iqueue g"
  by (simp_all add: pushRotateZ_def)

lemma pushTransform_queues: "vqueue (pushTransform g) = vqueue g" "iqueue (pushTransform g) = iqueue g"
  by (simp_all add: pushTransform_def)

lemma popTransform_queues: "vqueue (popTransform g) = vqueue g" "iqueue (popTransform g) = iqueue g"
  by (simp_all add: popTransform_def)

lemma quad_indices_valid: "list_all (validIndex (length (quadVerts w h z q col))) [0, 1, 3, 1, 2, 3]"
  by (simp add: quadVerts_def validIndex_def)

lemma queueInv_drawQuad: "queueInv gfx \<Longrightarrow> queueInv (drawQuad conf gfx)"
  unfolding drawQuad_def Let_def
  by (intro queueInv_drawRaw quad_indices_valid
        iffD2[OF queueInv_queues[OF popTransform_queues]])
     (simp add: queueInv_def pushTranslate_queues pushScale_queues pushRotateZ_queues pushTransform_queues)

lemma queueInv_drawLine: "queueInv gfx \<Longrightarrow> queueInv (drawLine p1 p2 conf gfx)"
  by (simp add: drawLine_def Let_def queueInv_drawQuad)

lemma queueInv_drawRectStroke: "queueInv gfx \<Longrightarrow> queueInv (drawRectStroke pos w h conf gfx)"
  unfolding drawRectStroke_def
  by (erule foldl_inv) (simp add: queueInv_drawLine split: prod.splits)

lemma queueInv_drawFmtText: "queueInv gfx \<Longrightarrow> queueInv (drawFmtText ft gfx)"
  unfolding drawFmtText_def
  by (erule foldl_inv) (simp add: queueInv_drawQuad)

lemma queueInv_frameStart: "queueInv gfx \<Longrightarrow> queueInv (frameStart gfx)"
proof -
  assume inv: "queueInv gfx"
  have eq: "queueInv (g\<lparr>drawCalls := 0, transformStack := [], transform := mat4\<rparr>) = queueInv g" for g
    by (simp add: queueInv_def)
  show ?thesis
    by (simp add: frameStart_def Let_def eq inv queueInv_drawQuad split: option.splits)
qed

lemma queueInv_frameEnd: "queueInv gfx \<Longrightarrow> queueInv (frameEnd gfx)"
  using queueInv_flush[of gfx] by (simp add: frameEnd_def Let_def queueInv_def)

lemma queueInv_initCtx: "queueInv (initCtx bw bh occ osc)"
  by (simp add: initCtx_def queueInv_def)

subsection \<open>The invariant of the queues\<close>

text \<open>
  C4. The invariant \<open>queueInv\<close> (the vertex queue holds whole vertices of 9 floats, and
  every queued index is one of \<open>0, \<dots>, vertex count - 1\<close>) is kept by \<^verbatim>\<open>flush\<close>, by every
  drawing operation and by the frame bracket. An emit appends its local indices, each
  increased by the number of vertices in the queue at that moment, behind the indices
  already queued, which stay as they are (or were flushed away just before).
\<close>

theorem queue_invariant_preserved:
  assumes "queueInv gfx"
  shows "queueInv (flush gfx)
   \<and> queueInv (drawQuad conf gfx)
   \<and> queueInv (drawTexture tex conf gfx)
   \<and> queueInv (drawRect pos w h conf gfx)
   \<and> queueInv (drawRectStroke pos w h conf gfx)
   \<and> queueInv (drawLine p1 p2 conf gfx)
   \<and> queueInv (drawText txt font conf gfx)
   \<and> queueInv (drawFmtText ftext gfx)
   \<and> queueInv (frameStart gfx)
   \<and> queueInv (frameEnd gfx)
   \<and> (let pre = (if flushes gfx vs is (nullish ot (defTex gfx)) (nullish op (defProg gfx))
                      (nullish ou no_uniform) then flush gfx else gfx)
      in iqueue (drawRaw vs is ot op ou gfx) =
           iqueue pre @ map (\<lambda>i. i + real (length (vqueue pre) div STRIDE)) is
         \<and> length (vqueue (drawRaw vs is ot op ou gfx)) div STRIDE =
             length (vqueue pre) div STRIDE + length vs
         \<and> (iqueue pre = iqueue gfx \<or> iqueue pre = []))"
proof -
  let ?pre = "if flushes gfx vs is (nullish ot (defTex gfx)) (nullish op (defProg gfx))
                (nullish ou no_uniform) then flush gfx else gfx"
  have pre: "queueInv ?pre"
    using assms by (simp add: queueInv_flush)
  then obtain n where n: "length (vqueue ?pre) = 9 * n"
    by (auto simp: queueInv_def STRIDE_def)
  have off: "real (length (vqueue ?pre)) / real STRIDE = real (length (vqueue ?pre) div STRIDE)"
    by (simp add: n STRIDE_def)
  have i: "iqueue (drawRaw vs is ot op ou gfx) =
      iqueue ?pre @ map (\<lambda>i. i + real (length (vqueue ?pre) div STRIDE)) is"
    unfolding drawRaw_queues off ..
  have v: "length (vqueue (drawRaw vs is ot op ou gfx)) div STRIDE =
      length (vqueue ?pre) div STRIDE + length vs"
    unfolding drawRaw_queues by (simp add: n length_concat_vertFloats STRIDE_def)
  have k: "iqueue ?pre = iqueue gfx \<or> iqueue ?pre = []"
    by (simp add: flush_def split: option.splits)
  show ?thesis
    unfolding Let_def
    using assms i v k
    by (simp only: queueInv_flush queueInv_drawQuad queueInv_drawLine queueInv_drawRectStroke
        queueInv_drawFmtText queueInv_frameStart queueInv_frameEnd
        drawTexture_def drawRect_def drawText_def Let_def simp_thms)
qed

theorem queue_invariant_preserved_witness:
  "queueInv (initCtx 100 100 None None)
   \<and> queueInv (drawQuad no_conf (initCtx 100 100 None None))
   \<and> queueInv (drawRectStroke (vec2 0 0) 10 10 no_conf (initCtx 100 100 None None))
   \<and> queueInv (flush (initCtx 100 100 None None))"
  using queue_invariant_preserved [OF queueInv_initCtx, of 100 100 None None no_conf _
      "vec2 0 0" 10 10]
  by (simp add: queueInv_initCtx)

subsection \<open>Emitting geometry\<close>

lemma deepEq_map_of:
  assumes "distinct (map fst (uentries u1))" "distinct (map fst (uentries u2))"
  shows "deepEq u1 u2 \<longleftrightarrow> map_of (uentries u1) = map_of (uentries u2)"
proof
  assume d: "deepEq u1 u2"
  have sub: "set (uentries u1) \<subseteq> set (uentries u2)"
    using d by (auto simp: deepEq_def list_all_iff dest: map_of_SomeD)
  have "card (set (uentries u1)) = length (uentries u1)"
    using assms(1) by (simp add: distinct_card distinct_map)
  moreover have "card (set (uentries u2)) = length (uentries u2)"
    using assms(2) by (simp add: distinct_card distinct_map)
  ultimately have "set (uentries u1) = set (uentries u2)"
    using d sub by (simp add: deepEq_def card_subset_eq)
  then show "map_of (uentries u1) = map_of (uentries u2)"
    using assms by (simp add: map_of_inject_set)
next
  assume e: "map_of (uentries u1) = map_of (uentries u2)"
  then have s: "set (uentries u1) = set (uentries u2)"
    using assms by (simp add: map_of_inject_set)
  have "length (uentries u1) = card (set (uentries u1))"
    using assms(1) by (simp add: distinct_card distinct_map)
  also have "\<dots> = length (uentries u2)"
    using assms(2) s by (simp add: distinct_card distinct_map)
  finally have l: "length (uentries u1) = length (uentries u2)" .
  have "map_of (uentries u2) k = Some v" if "(k, v) \<in> set (uentries u1)" for k v
    using that assms(2) s by simp
  then show "deepEq u1 u2"
    using l by (auto simp: deepEq_def list_all_iff)
qed

lemma deepEq_same: "distinct (map fst (uentries u)) \<Longrightarrow> deepEq u u"
  by (simp add: deepEq_map_of)

lemma deepEq_differs:
  assumes "map_of (uentries u1) k = Some v" "map_of (uentries u2) k \<noteq> Some v"
  shows "\<not> deepEq u1 u2"
proof -
  have "(k, v) \<in> set (uentries u1)"
    using assms(1) by (rule map_of_SomeD)
  then show ?thesis
    using assms(2) by (force simp: deepEq_def list_all_iff)
qed

lemma flush_effective:
  assumes "curTex g = Some t" "curProg g = Some p" "vqueue g \<noteq> []" "iqueue g \<noteq> []"
  shows "flush g = g\<lparr>
            gl_drawElements := gl_drawElements g @
              [\<lparr>de_count = length (iqueue g), de_prog = p, de_tex = t,
                de_uniform = curUniform g,
                de_vertices = vqueue g, de_indices = iqueue g\<rparr>],
            iqueue := [], vqueue := [], drawCalls := drawCalls g + 1\<rparr>"
  using assms by (simp add: flush_def)

lemma drawRaw_state:
  "curTex (drawRaw vs is ot op ou gfx) = Some (nullish ot (defTex gfx))"
  "curProg (drawRaw vs is ot op ou gfx) = Some (nullish op (defProg gfx))"
  "curUniform (drawRaw vs is ot op ou gfx) = nullish ou no_uniform"
  "defTex (drawRaw vs is ot op ou gfx) = defTex gfx"
  "defProg (drawRaw vs is ot op ou gfx) = defProg gfx"
  by (simp_all add: drawRaw_def Let_def flush_def split: option.splits)

lemma drawRaw_draws:
  "drawCalls (drawRaw vs is ot op ou gfx) =
     drawCalls (if flushes gfx vs is (nullish ot (defTex gfx)) (nullish op (defProg gfx))
                  (nullish ou no_uniform) then flush gfx else gfx)"
  "gl_drawElements (drawRaw vs is ot op ou gfx) =
     gl_drawElements (if flushes gfx vs is (nullish ot (defTex gfx)) (nullish op (defProg gfx))
                  (nullish ou no_uniform) then flush gfx else gfx)"
  by (simp_all add: drawRaw_def Let_def)


lemma flushes_iff:
  "flushes gfx vs is tex prog uniform \<longleftrightarrow>
     (Some (tex_id tex) \<noteq> map_option tex_id (curTex gfx)
      \<or> Some (prog_id prog) \<noteq> map_option prog_id (curProg gfx)
      \<or> \<not> deepEq (activeUniform gfx uniform) uniform
      \<or> length (vqueue gfx) + length vs * 9 > 65536
      \<or> length (iqueue gfx) + length is > 65536)"
  by (simp add: flushes_def STRIDE_def QUEUE_COUNT_def)

lemma drawRaw_unfold:
  "drawRaw vs is ot op ou gfx =
    (if flushes gfx vs is (nullish ot (defTex gfx)) (nullish op (defProg gfx))
                    (nullish ou no_uniform) then flush gfx else gfx)
      \<lparr>curTex := Some (nullish ot (defTex gfx)), curProg := Some (nullish op (defProg gfx)),
        curUniform := nullish ou no_uniform,
        iqueue := iqueue (if flushes gfx vs is (nullish ot (defTex gfx)) (nullish op (defProg gfx))
                    (nullish ou no_uniform) then flush gfx else gfx) @
          map (\<lambda>i. i + real (length (vqueue (if flushes gfx vs is (nullish ot (defTex gfx)) (nullish op (defProg gfx))
                    (nullish ou no_uniform) then flush gfx else gfx))) / 9) is,
        vqueue := vqueue (if flushes gfx vs is (nullish ot (defTex gfx)) (nullish op (defProg gfx))
                    (nullish ou no_uniform) then flush gfx else gfx) @
          concat (map (vertFloats ((if flushes gfx vs is (nullish ot (defTex gfx)) (nullish op (defProg gfx))
                    (nullish ou no_uniform) then flush gfx else gfx)
            \<lparr>curTex := Some (nullish ot (defTex gfx)), curProg := Some (nullish op (defProg gfx)),
              curUniform := nullish ou no_uniform\<rparr>)) vs)\<rparr>"
  by (simp add: drawRaw_def Let_def STRIDE_def)

lemma vertFloats_same:
  assumes "transform g' = transform g" "gconf_scale g' = gconf_scale g"
    "gl_drawingBufferWidth g' = gl_drawingBufferWidth g"
    "gl_drawingBufferHeight g' = gl_drawingBufferHeight g"
  shows "vertFloats g' = vertFloats g"
  by (rule ext) (simp add: vertFloats_def toNDC_def width_def height_def scale_def assms)

lemma vertFloats_pre:
  "vertFloats ((if c then flush gfx else gfx)\<lparr>curTex := t, curProg := p, curUniform := u\<rparr>)
     = vertFloats gfx"
  by (rule vertFloats_same) (simp_all add: flush_def split: option.splits)

lemma vertFloats_upd:
  "vertFloats (g\<lparr>curUniform := u\<rparr>) = vertFloats g"
  "vertFloats (g\<lparr>curTex := t\<rparr>) = vertFloats g"
  "vertFloats (g\<lparr>curProg := p\<rparr>) = vertFloats g"
  by (rule vertFloats_same; simp)+

lemma vertFloats_drawRaw: "vertFloats (drawRaw vs is ot op ou g) = vertFloats g"
  by (rule vertFloats_same)
    (simp_all add: drawRaw_keeps_transform drawRaw_def Let_def flush_def split: option.splits)

lemma drawRaw_counts:
  assumes "curTex gfx = Some t" "curProg gfx = Some p" "vqueue gfx \<noteq> []" "iqueue gfx \<noteq> []"
  shows "drawCalls (drawRaw vs is ot op ou gfx) =
      (if flushes gfx vs is (nullish ot (defTex gfx)) (nullish op (defProg gfx))
          (nullish ou no_uniform) then drawCalls gfx + 1 else drawCalls gfx)"
    and "gl_drawElements (drawRaw vs is ot op ou gfx) =
      (if flushes gfx vs is (nullish ot (defTex gfx)) (nullish op (defProg gfx))
          (nullish ou no_uniform)
       then gl_drawElements gfx @
              [\<lparr>de_count = length (iqueue gfx), de_prog = p, de_tex = t,
                de_uniform = curUniform gfx,
                de_vertices = vqueue gfx, de_indices = iqueue gfx\<rparr>]
       else gl_drawElements gfx)"
    and "iqueue (drawRaw vs is ot op ou gfx) =
      (if flushes gfx vs is (nullish ot (defTex gfx)) (nullish op (defProg gfx))
          (nullish ou no_uniform)
       then is else iqueue gfx @ map (\<lambda>i. i + real (length (vqueue gfx)) / real STRIDE) is)"
    and "vqueue (drawRaw vs is ot op ou gfx) =
      (if flushes gfx vs is (nullish ot (defTex gfx)) (nullish op (defProg gfx))
          (nullish ou no_uniform)
       then concat (map (vertFloats gfx) vs)
       else vqueue gfx @ concat (map (vertFloats gfx) vs))"
  unfolding drawRaw_draws drawRaw_queues vertFloats_pre
  by (simp_all add: flush_effective[OF assms])


lemma nullish_simps: "nullish (Some v) d = v" "nullish None d = d"
  by (simp_all add: nullish_def)

lemma drawRaw_nonempty:
  assumes "vs \<noteq> []" "is \<noteq> []"
  shows "vqueue (drawRaw vs is ot op ou gfx) \<noteq> []" "iqueue (drawRaw vs is ot op ou gfx) \<noteq> []"
proof -
  have "length (concat (map (vertFloats g) vs)) \<noteq> 0" for g
    using assms(1) by (simp add: length_concat_vertFloats del: length_0_conv)
  then show "vqueue (drawRaw vs is ot op ou gfx) \<noteq> []"
    unfolding drawRaw_queues by simp
  show "iqueue (drawRaw vs is ot op ou gfx) \<noteq> []"
    unfolding drawRaw_queues using assms(2) by simp
qed

lemma second_emit_flushes_iff:
  "flushes (drawRaw vs1 is1 ot op ou1 gfx) vs2 is2 (nullish ot (defTex gfx))
      (nullish op (defProg gfx)) u2 \<longleftrightarrow>
     (\<not> deepEq (if sameObject (nullish ou1 no_uniform) u2 then u2 else nullish ou1 no_uniform) u2
      \<or> length (vqueue (drawRaw vs1 is1 ot op ou1 gfx)) + length vs2 * 9 > 65536
      \<or> length (iqueue (drawRaw vs1 is1 ot op ou1 gfx)) + length is2 > 65536)"
  by (simp add: flushes_iff drawRaw_state activeUniform_def)

lemma equal_uniforms_no_flush:
  assumes "distinct (map fst (uentries u1))" "distinct (map fst (uentries u2))"
    "set (uentries u1) = set (uentries u2)"
    "length (vqueue (drawRaw vs1 is1 ot op (Some u1) gfx)) + length vs2 * 9 \<le> 65536"
    "length (iqueue (drawRaw vs1 is1 ot op (Some u1) gfx)) + length is2 \<le> 65536"
  shows "drawRaw vs2 is2 ot op (Some u2) (drawRaw vs1 is1 ot op (Some u1) gfx) =
      (drawRaw vs1 is1 ot op (Some u1) gfx)\<lparr>
         curUniform := u2,
         iqueue := iqueue (drawRaw vs1 is1 ot op (Some u1) gfx) @
           map (\<lambda>i. i + real (length (vqueue (drawRaw vs1 is1 ot op (Some u1) gfx))) / 9) is2,
         vqueue := vqueue (drawRaw vs1 is1 ot op (Some u1) gfx) @
           concat (map (vertFloats gfx) vs2)\<rparr>"
proof -
  let ?g1 = "drawRaw vs1 is1 ot op (Some u1) gfx"
  have "map_of (uentries u1) = map_of (uentries u2)"
    using assms(1-3) by (simp add: map_of_inject_set)
  then have "deepEq u1 u2"
    using assms(1,2) by (simp add: deepEq_map_of)
  then have "(sameObject u1 u2 \<longrightarrow> deepEq u2 u2) \<and> (\<not> sameObject u1 u2 \<longrightarrow> deepEq u1 u2)"
    using assms(2) by (simp add: deepEq_same)
  then have nf: "\<not> flushes ?g1 vs2 is2 (nullish ot (defTex gfx)) (nullish op (defProg gfx)) u2"
    using assms(4,5) by (simp add: second_emit_flushes_iff nullish_simps)
  have st: "?g1\<lparr>curTex := Some (nullish ot (defTex gfx)), curProg := Some (nullish op (defProg gfx)),
      curUniform := u2\<rparr> = ?g1\<lparr>curUniform := u2\<rparr>"
    by (simp add: drawRaw_def Let_def)
  show ?thesis
    using nf
    by (subst drawRaw_def) (simp add: Let_def drawRaw_state nullish_simps vertFloats_upd vertFloats_drawRaw st STRIDE_def)
qed


lemma differing_scalar_flushes:
  assumes "map_of (uentries u1) k = Some (UNum a)" "map_of (uentries u2) k = Some (UNum b)"
    "a \<noteq> b" "\<not> sameObject u1 u2" "vs1 \<noteq> []" "is1 \<noteq> []"
  shows "drawCalls (drawRaw vs2 is2 ot op (Some u2) (drawRaw vs1 is1 ot op (Some u1) gfx)) =
      drawCalls (drawRaw vs1 is1 ot op (Some u1) gfx) + 1"
    and "iqueue (drawRaw vs2 is2 ot op (Some u2) (drawRaw vs1 is1 ot op (Some u1) gfx)) = is2"
    and "vqueue (drawRaw vs2 is2 ot op (Some u2) (drawRaw vs1 is1 ot op (Some u1) gfx)) =
      concat (map (vertFloats gfx) vs2)"
proof -
  let ?g1 = "drawRaw vs1 is1 ot op (Some u1) gfx"
  have "\<not> deepEq u1 u2"
    using assms(1-3) by (intro deepEq_differs[of u1 k "UNum a"]) simp_all
  then have f: "flushes ?g1 vs2 is2 (nullish ot (defTex ?g1)) (nullish op (defProg ?g1))
      (nullish (Some u2) no_uniform)"
    using assms(4) by (simp add: drawRaw_state second_emit_flushes_iff nullish_simps)
  note c = drawRaw_counts[of ?g1 _ _ vs2 is2 ot op "Some u2", OF drawRaw_state(1) drawRaw_state(2)
      drawRaw_nonempty(1)[OF assms(5,6)] drawRaw_nonempty(2)[OF assms(5,6)]]
  show "drawCalls (drawRaw vs2 is2 ot op (Some u2) ?g1) = drawCalls ?g1 + 1"
    using f c(1) by simp
  show "iqueue (drawRaw vs2 is2 ot op (Some u2) ?g1) = is2"
    using f c(3) by simp
  show "vqueue (drawRaw vs2 is2 ot op (Some u2) ?g1) = concat (map (vertFloats gfx) vs2)"
    using f c(4) by (simp add: vertFloats_drawRaw)
qed

text \<open>
  When the caller requests the object that is already active, changed or not, the code
  compares the object with itself and does not flush for its uniforms: the geometry
  queued under its old entries is drawn later with the new ones.
\<close>

lemma same_object_no_flush:
  assumes "sameObject u1 u2" "distinct (map fst (uentries u2))"
    "length (vqueue (drawRaw vs1 is1 ot op (Some u1) gfx)) + length vs2 * 9 \<le> 65536"
    "length (iqueue (drawRaw vs1 is1 ot op (Some u1) gfx)) + length is2 \<le> 65536"
  shows "drawCalls (drawRaw vs2 is2 ot op (Some u2) (drawRaw vs1 is1 ot op (Some u1) gfx)) =
      drawCalls (drawRaw vs1 is1 ot op (Some u1) gfx)"
    and "curUniform (drawRaw vs2 is2 ot op (Some u2) (drawRaw vs1 is1 ot op (Some u1) gfx)) = u2"
proof -
  let ?g1 = "drawRaw vs1 is1 ot op (Some u1) gfx"
  have "\<not> flushes ?g1 vs2 is2 (nullish ot (defTex ?g1)) (nullish op (defProg ?g1))
      (nullish (Some u2) no_uniform)"
    using assms by (simp add: drawRaw_state second_emit_flushes_iff nullish_simps deepEq_same)
  then show "drawCalls (drawRaw vs2 is2 ot op (Some u2) ?g1) = drawCalls ?g1"
    by (simp add: drawRaw_draws)
  show "curUniform (drawRaw vs2 is2 ot op (Some u2) ?g1) = u2"
    by (simp add: drawRaw_state nullish_simps)
qed

text \<open>
  C1. An emit (\<^verbatim>\<open>drawRaw\<close>) runs \<^verbatim>\<open>flush()\<close> before it appends if and only if the
  requested texture is not the active texture object, or the requested program is not
  the active program object, or the requested uniform set is not deeply equal to the
  active one (the object that the last emit left in \<^verbatim>\<open>gfx.curUniform\<close>, as it is now),
  or the new vertex floats or the new indices would exceed the capacity of 65536 of
  their queue. Where a flush has something to draw (both queues non-empty, a texture
  and a program active) this is visible in the draw-call counter, which goes up by one
  exactly then. In particular, of two consecutive emits with the same texture and
  program whose uniform sets are two different objects, the second does not flush when
  its object holds the same entries (and the queues have room), and it does flush when
  one number in its object differs.
\<close>

theorem emit_flushes_iff_state_changed:
  "(let tex = nullish ot (defTex gfx);
        prog = nullish op (defProg gfx);
        uniform = nullish ou no_uniform;
        changed = (Some (tex_id tex) \<noteq> map_option tex_id (curTex gfx)
                   \<or> Some (prog_id prog) \<noteq> map_option prog_id (curProg gfx)
                   \<or> \<not> deepEq (activeUniform gfx uniform) uniform
                   \<or> length (vqueue gfx) + length vs * 9 > 65536
                   \<or> length (iqueue gfx) + length is > 65536);
        pre = (if changed then flush gfx else gfx)
    in drawRaw vs is ot op ou gfx =
         pre\<lparr>curTex := Some tex, curProg := Some prog, curUniform := uniform,
             iqueue := iqueue pre @ map (\<lambda>i. i + real (length (vqueue pre)) / 9) is,
             vqueue := vqueue pre @ concat (map (vertFloats gfx) vs)\<rparr>
       \<and> (curTex gfx \<noteq> None \<and> curProg gfx \<noteq> None \<and> vqueue gfx \<noteq> [] \<and> iqueue gfx \<noteq> [] \<longrightarrow>
            (drawCalls (drawRaw vs is ot op ou gfx) = drawCalls gfx + 1) = changed
          \<and> (drawCalls (drawRaw vs is ot op ou gfx) = drawCalls gfx) = (\<not> changed)))
   \<and> (let g1 = drawRaw vs1 is1 ot op (Some u1) gfx
      in (distinct (map fst (uentries u1)) \<and> distinct (map fst (uentries u2))
          \<and> set (uentries u1) = set (uentries u2) \<and> \<not> sameObject u1 u2
          \<and> length (vqueue g1) + length vs2 * 9 \<le> 65536
          \<and> length (iqueue g1) + length is2 \<le> 65536 \<longrightarrow>
            drawCalls (drawRaw vs2 is2 ot op (Some u2) g1) = drawCalls g1
          \<and> gl_drawElements (drawRaw vs2 is2 ot op (Some u2) g1) = gl_drawElements g1
          \<and> iqueue (drawRaw vs2 is2 ot op (Some u2) g1) =
              iqueue g1 @ map (\<lambda>i. i + real (length (vqueue g1)) / 9) is2
          \<and> vqueue (drawRaw vs2 is2 ot op (Some u2) g1) =
              vqueue g1 @ concat (map (vertFloats gfx) vs2))
       \<and> (map_of (uentries u1) k = Some (UNum a) \<and> map_of (uentries u2) k = Some (UNum b)
          \<and> a \<noteq> b \<and> \<not> sameObject u1 u2 \<and> vs1 \<noteq> [] \<and> is1 \<noteq> [] \<longrightarrow>
            drawCalls (drawRaw vs2 is2 ot op (Some u2) g1) = drawCalls g1 + 1
          \<and> iqueue (drawRaw vs2 is2 ot op (Some u2) g1) = is2
          \<and> vqueue (drawRaw vs2 is2 ot op (Some u2) g1) = concat (map (vertFloats gfx) vs2)))"
proof -
  have one: "drawRaw vs is ot op ou gfx =
      (if flushes gfx vs is (nullish ot (defTex gfx)) (nullish op (defProg gfx))
            (nullish ou no_uniform) then flush gfx else gfx)
        \<lparr>curTex := Some (nullish ot (defTex gfx)), curProg := Some (nullish op (defProg gfx)),
          curUniform := nullish ou no_uniform,
          iqueue := iqueue (if flushes gfx vs is (nullish ot (defTex gfx))
              (nullish op (defProg gfx)) (nullish ou no_uniform) then flush gfx else gfx) @
            map (\<lambda>i. i + real (length (vqueue (if flushes gfx vs is (nullish ot (defTex gfx))
              (nullish op (defProg gfx)) (nullish ou no_uniform) then flush gfx else gfx))) / 9) is,
          vqueue := vqueue (if flushes gfx vs is (nullish ot (defTex gfx))
              (nullish op (defProg gfx)) (nullish ou no_uniform) then flush gfx else gfx) @
            concat (map (vertFloats gfx) vs)\<rparr>"
    by (subst drawRaw_unfold) (simp only: vertFloats_pre)
  have two: "(drawCalls (drawRaw vs is ot op ou gfx) = drawCalls gfx + 1) =
        flushes gfx vs is (nullish ot (defTex gfx)) (nullish op (defProg gfx)) (nullish ou no_uniform)
      \<and> (drawCalls (drawRaw vs is ot op ou gfx) = drawCalls gfx) =
        (\<not> flushes gfx vs is (nullish ot (defTex gfx)) (nullish op (defProg gfx))
            (nullish ou no_uniform))"
    if "curTex gfx \<noteq> None \<and> curProg gfx \<noteq> None \<and> vqueue gfx \<noteq> [] \<and> iqueue gfx \<noteq> []"
  proof -
    from that obtain t p where "curTex gfx = Some t" "curProg gfx = Some p"
      "vqueue gfx \<noteq> []" "iqueue gfx \<noteq> []"
      by auto
    from drawRaw_counts(1)[OF this] show ?thesis by simp
  qed
  have three: "drawCalls (drawRaw vs2 is2 ot op (Some u2) (drawRaw vs1 is1 ot op (Some u1) gfx)) =
        drawCalls (drawRaw vs1 is1 ot op (Some u1) gfx)
      \<and> gl_drawElements (drawRaw vs2 is2 ot op (Some u2) (drawRaw vs1 is1 ot op (Some u1) gfx)) =
        gl_drawElements (drawRaw vs1 is1 ot op (Some u1) gfx)
      \<and> iqueue (drawRaw vs2 is2 ot op (Some u2) (drawRaw vs1 is1 ot op (Some u1) gfx)) =
        iqueue (drawRaw vs1 is1 ot op (Some u1) gfx) @
          map (\<lambda>i. i + real (length (vqueue (drawRaw vs1 is1 ot op (Some u1) gfx))) / 9) is2
      \<and> vqueue (drawRaw vs2 is2 ot op (Some u2) (drawRaw vs1 is1 ot op (Some u1) gfx)) =
        vqueue (drawRaw vs1 is1 ot op (Some u1) gfx) @ concat (map (vertFloats gfx) vs2)"
    if "distinct (map fst (uentries u1)) \<and> distinct (map fst (uentries u2))
        \<and> set (uentries u1) = set (uentries u2) \<and> \<not> sameObject u1 u2
        \<and> length (vqueue (drawRaw vs1 is1 ot op (Some u1) gfx)) + length vs2 * 9 \<le> 65536
        \<and> length (iqueue (drawRaw vs1 is1 ot op (Some u1) gfx)) + length is2 \<le> 65536"
    using that by (subst (1 2 3 4) equal_uniforms_no_flush) simp_all
  have four: "drawCalls (drawRaw vs2 is2 ot op (Some u2) (drawRaw vs1 is1 ot op (Some u1) gfx)) =
        drawCalls (drawRaw vs1 is1 ot op (Some u1) gfx) + 1
      \<and> iqueue (drawRaw vs2 is2 ot op (Some u2) (drawRaw vs1 is1 ot op (Some u1) gfx)) = is2
      \<and> vqueue (drawRaw vs2 is2 ot op (Some u2) (drawRaw vs1 is1 ot op (Some u1) gfx)) =
        concat (map (vertFloats gfx) vs2)"
    if "map_of (uentries u1) k = Some (UNum a) \<and> map_of (uentries u2) k = Some (UNum b)
        \<and> a \<noteq> b \<and> \<not> sameObject u1 u2 \<and> vs1 \<noteq> [] \<and> is1 \<noteq> []"
    using that differing_scalar_flushes[of u1 k a u2 b vs1 is1 vs2 is2 ot op gfx] by blast
  show ?thesis
    unfolding Let_def flushes_iff[symmetric]
    using one two three four by blast
qed


lemma drawRaw_vqueue_length:
  "length (vqueue (drawRaw vs is ot op ou gfx)) =
     length (vqueue (if flushes gfx vs is (nullish ot (defTex gfx)) (nullish op (defProg gfx))
                  (nullish ou no_uniform) then flush gfx else gfx)) + 9 * length vs"
  unfolding drawRaw_queues by (simp add: length_concat_vertFloats)

lemma exQuad_facts: "length exQuad = 4" "exQuad \<noteq> []"
  by (simp_all add: exQuad_def quadVerts_def)

lemma first_emit_eval:
  "length (vqueue (drawRaw exQuad [0, 1, 3, 1, 2, 3] None None (Some exUniformA)
      (initCtx 100 100 None None))) = 36"
  "iqueue (drawRaw exQuad [0, 1, 3, 1, 2, 3] None None (Some exUniformA)
      (initCtx 100 100 None None)) = [0, 1, 3, 1, 2, 3]"
  "drawCalls (drawRaw exQuad [0, 1, 3, 1, 2, 3] None None (Some exUniformA)
      (initCtx 100 100 None None)) = 0"
  by (simp_all add: drawRaw_vqueue_length drawRaw_queues(2) drawRaw_draws flush_def initCtx_def
      exQuad_facts)

theorem emit_flushes_iff_state_changed_witness:
  "drawCalls (drawRaw exQuad [0, 1, 3, 1, 2, 3] None None (Some exUniformB)
      (drawRaw exQuad [0, 1, 3, 1, 2, 3] None None (Some exUniformA)
        (initCtx 100 100 None None))) = 0
   \<and> iqueue (drawRaw exQuad [0, 1, 3, 1, 2, 3] None None (Some exUniformB)
      (drawRaw exQuad [0, 1, 3, 1, 2, 3] None None (Some exUniformA)
        (initCtx 100 100 None None))) = [0, 1, 3, 1, 2, 3, 4, 5, 7, 5, 6, 7]
   \<and> drawCalls (drawRaw exQuad [0, 1, 3, 1, 2, 3] None None (Some exUniformC)
      (drawRaw exQuad [0, 1, 3, 1, 2, 3] None None (Some exUniformA)
        (initCtx 100 100 None None))) = 1
   \<and> iqueue (drawRaw exQuad [0, 1, 3, 1, 2, 3] None None (Some exUniformC)
      (drawRaw exQuad [0, 1, 3, 1, 2, 3] None None (Some exUniformA)
        (initCtx 100 100 None None))) = [0, 1, 3, 1, 2, 3]"
proof -
  let ?g1 = "drawRaw exQuad [0, 1, 3, 1, 2, 3] None None (Some exUniformA)
      (initCtx 100 100 None None)"
  have same: "distinct (map fst (uentries exUniformA)) \<and> distinct (map fst (uentries exUniformB))
      \<and> set (uentries exUniformA) = set (uentries exUniformB)
      \<and> \<not> sameObject exUniformA exUniformB
      \<and> length (vqueue ?g1) + length exQuad * 9 \<le> 65536
      \<and> length (iqueue ?g1) + length [0, 1, 3, 1, 2, 3 :: real] \<le> 65536"
    unfolding first_emit_eval
    by (auto simp: exUniformA_def exUniformB_def sameObject_def exQuad_facts)
  have differ: "map_of (uentries exUniformA) ''u_time'' = Some (UNum 1)
      \<and> map_of (uentries exUniformC) ''u_time'' = Some (UNum 2)
      \<and> (1::real) \<noteq> 2 \<and> \<not> sameObject exUniformA exUniformC
      \<and> exQuad \<noteq> [] \<and> [0, 1, 3, 1, 2, 3 :: real] \<noteq> []"
    by (simp add: exUniformA_def exUniformC_def sameObject_def exQuad_facts)
  have "drawCalls (drawRaw exQuad [0, 1, 3, 1, 2, 3] None None (Some exUniformB) ?g1) =
        drawCalls ?g1
      \<and> iqueue (drawRaw exQuad [0, 1, 3, 1, 2, 3] None None (Some exUniformB) ?g1) =
          iqueue ?g1 @ map (\<lambda>i. i + real (length (vqueue ?g1)) / 9) [0, 1, 3, 1, 2, 3]"
    using emit_flushes_iff_state_changed[of None "initCtx 100 100 None None" None None "[]" "[]"
      exQuad "[0, 1, 3, 1, 2, 3]" exUniformA exUniformB exQuad "[0, 1, 3, 1, 2, 3]"
      "''u_time''" 1 2] same
    unfolding Let_def by blast
  moreover have "drawCalls (drawRaw exQuad [0, 1, 3, 1, 2, 3] None None (Some exUniformC) ?g1) =
        drawCalls ?g1 + 1
      \<and> iqueue (drawRaw exQuad [0, 1, 3, 1, 2, 3] None None (Some exUniformC) ?g1) =
          [0, 1, 3, 1, 2, 3]"
    using emit_flushes_iff_state_changed[of None "initCtx 100 100 None None" None None "[]" "[]"
      exQuad "[0, 1, 3, 1, 2, 3]" exUniformA exUniformC exQuad "[0, 1, 3, 1, 2, 3]"
      "''u_time''" 1 2] differ
    unfolding Let_def by blast
  ultimately show ?thesis
    unfolding first_emit_eval by simp
qed

text \<open>
  The same object with its number set from 1 to 2 between two emits: no flush, and the
  first quad will be drawn with the new number.
\<close>

lemma mutated_object_eval:
  "drawCalls (drawRaw exQuad [0, 1, 3, 1, 2, 3] None None (Some exUniformA2)
      (drawRaw exQuad [0, 1, 3, 1, 2, 3] None None (Some exUniformA)
        (initCtx 100 100 None None))) = 0"
proof -
  have "sameObject exUniformA exUniformA2" "distinct (map fst (uentries exUniformA2))"
    by (simp_all add: sameObject_def exUniformA_def exUniformA2_def)
  from same_object_no_flush(1)[OF this, of exQuad "[0, 1, 3, 1, 2, 3]" None None
      "initCtx 100 100 None None" exQuad "[0, 1, 3, 1, 2, 3]"]
  show ?thesis
    unfolding first_emit_eval by (simp add: exQuad_facts)
qed

lemma batchReady_fields:
  assumes "vqueue g' = vqueue g" "iqueue g' = iqueue g" "curTex g' = curTex g"
    "curProg g' = curProg g"
  shows "batchReady g' = batchReady g"
  by (simp add: batchReady_def assms)

lemma batchReady_initCtx: "batchReady (initCtx bw bh occ osc)"
  by (simp add: batchReady_def initCtx_def)

lemma batchReady_flush: "batchReady g \<Longrightarrow> batchReady (flush g)"
  by (auto simp: batchReady_def flush_def split: option.splits)

lemma batchReady_drawRaw:
  "vs \<noteq> [] \<Longrightarrow> is \<noteq> [] \<Longrightarrow> batchReady (drawRaw vs is ot op ou gfx)"
  by (simp add: batchReady_def drawRaw_nonempty drawRaw_state)

lemma popTransform_batch:
  "curTex (popTransform g) = curTex g" "curProg (popTransform g) = curProg g"
  "curUniform (popTransform g) = curUniform g" "drawCalls (popTransform g) = drawCalls g"
  "gl_drawElements (popTransform g) = gl_drawElements g"
  by (simp_all add: popTransform_def)

lemma batchReady_drawQuad: "batchReady (drawQuad conf gfx)"
  unfolding drawQuad_def Let_def
  by (subst batchReady_fields[OF popTransform_queues popTransform_batch(1,2)])
    (simp add: batchReady_drawRaw quadVerts_def)

lemma batchReady_frameStart: "batchReady gfx \<Longrightarrow> batchReady (frameStart gfx)"
proof -
  assume r: "batchReady gfx"
  have eq: "batchReady (g\<lparr>drawCalls := 0, transformStack := [], transform := mat4\<rparr>) =
      batchReady g" for g
    by (simp add: batchReady_def)
  show ?thesis
    by (simp add: frameStart_def Let_def eq r batchReady_drawQuad split: option.splits)
qed

lemma batchReady_frameEnd: "batchReady gfx \<Longrightarrow> batchReady (frameEnd gfx)"
  using batchReady_flush[of gfx] by (simp add: frameEnd_def Let_def batchReady_def)

lemma batchReady_drawRectStroke:
  "batchReady gfx \<Longrightarrow> batchReady (drawRectStroke pos w h conf gfx)"
  unfolding drawRectStroke_def
  by (erule foldl_inv) (simp add: drawLine_def Let_def batchReady_drawQuad split: prod.splits)

lemma batchReady_drawFmtText: "batchReady gfx \<Longrightarrow> batchReady (drawFmtText ft gfx)"
  unfolding drawFmtText_def
  by (erule foldl_inv) (simp add: batchReady_drawQuad)

text \<open>
  Between its push and its pop \<^verbatim>\<open>drawQuad\<close> changes the transform only: what the emit
  finds in the queues and in the batch state is what the caller left there.
\<close>

lemma pushed_form:
  "pushTranslate (Some p2) (pushRotateZ r (pushScale (Some s) (pushTranslate (Some p1)
      (pushTransform gfx)))) =
   gfx\<lparr>transform := transform (pushTranslate (Some p2) (pushRotateZ r (pushScale (Some s)
           (pushTranslate (Some p1) (pushTransform gfx))))),
        transformStack := transformStack gfx @ [transform gfx]\<rparr>"
  by (simp add: pushTranslate_def pushRotateZ_def pushScale_def pushTransform_def clone_id)

lemma drawRaw_transform_free:
  "drawCalls (drawRaw vs is ot op ou (g\<lparr>transform := T, transformStack := S\<rparr>)) =
     drawCalls (drawRaw vs is ot op ou g)"
  "gl_drawElements (drawRaw vs is ot op ou (g\<lparr>transform := T, transformStack := S\<rparr>)) =
     gl_drawElements (drawRaw vs is ot op ou g)"
  "iqueue (drawRaw vs is ot op ou (g\<lparr>transform := T, transformStack := S\<rparr>)) =
     iqueue (drawRaw vs is ot op ou g)"
  "length (vqueue (drawRaw vs is ot op ou (g\<lparr>transform := T, transformStack := S\<rparr>))) =
     length (vqueue (drawRaw vs is ot op ou g))"
  "curTex (drawRaw vs is ot op ou (g\<lparr>transform := T, transformStack := S\<rparr>)) =
     curTex (drawRaw vs is ot op ou g)"
  "curProg (drawRaw vs is ot op ou (g\<lparr>transform := T, transformStack := S\<rparr>)) =
     curProg (drawRaw vs is ot op ou g)"
  "curUniform (drawRaw vs is ot op ou (g\<lparr>transform := T, transformStack := S\<rparr>)) =
     curUniform (drawRaw vs is ot op ou g)"
  "defTex (drawRaw vs is ot op ou (g\<lparr>transform := T, transformStack := S\<rparr>)) =
     defTex (drawRaw vs is ot op ou g)"
  "defProg (drawRaw vs is ot op ou (g\<lparr>transform := T, transformStack := S\<rparr>)) =
     defProg (drawRaw vs is ot op ou g)"
proof -
  have f: "flushes (g\<lparr>transform := T, transformStack := S\<rparr>) vs is t p u = flushes g vs is t p u"
    for t p u
    by (simp add: flushes_def activeUniform_def)
  have fl: "flush (g\<lparr>transform := T, transformStack := S\<rparr>) =
      (flush g)\<lparr>transform := T, transformStack := S\<rparr>"
    by (simp add: flush_def split: option.splits)
  show "drawCalls (drawRaw vs is ot op ou (g\<lparr>transform := T, transformStack := S\<rparr>)) =
      drawCalls (drawRaw vs is ot op ou g)"
    "gl_drawElements (drawRaw vs is ot op ou (g\<lparr>transform := T, transformStack := S\<rparr>)) =
      gl_drawElements (drawRaw vs is ot op ou g)"
    "iqueue (drawRaw vs is ot op ou (g\<lparr>transform := T, transformStack := S\<rparr>)) =
      iqueue (drawRaw vs is ot op ou g)"
    "length (vqueue (drawRaw vs is ot op ou (g\<lparr>transform := T, transformStack := S\<rparr>))) =
      length (vqueue (drawRaw vs is ot op ou g))"
    "curTex (drawRaw vs is ot op ou (g\<lparr>transform := T, transformStack := S\<rparr>)) =
      curTex (drawRaw vs is ot op ou g)"
    "curProg (drawRaw vs is ot op ou (g\<lparr>transform := T, transformStack := S\<rparr>)) =
      curProg (drawRaw vs is ot op ou g)"
    "curUniform (drawRaw vs is ot op ou (g\<lparr>transform := T, transformStack := S\<rparr>)) =
      curUniform (drawRaw vs is ot op ou g)"
    "defTex (drawRaw vs is ot op ou (g\<lparr>transform := T, transformStack := S\<rparr>)) =
      defTex (drawRaw vs is ot op ou g)"
    "defProg (drawRaw vs is ot op ou (g\<lparr>transform := T, transformStack := S\<rparr>)) =
      defProg (drawRaw vs is ot op ou g)"
    by (simp_all add: drawRaw_vqueue_length drawRaw_queues(2) drawRaw_draws drawRaw_state f fl)
qed

lemma drawQuad_emit:
  "drawCalls (drawQuad conf gfx) =
     drawCalls (drawRaw (confVerts conf) [0, 1, 3, 1, 2, 3] (c_tex conf) (c_prog conf)
       (c_uniform conf) gfx)"
  "gl_drawElements (drawQuad conf gfx) =
     gl_drawElements (drawRaw (confVerts conf) [0, 1, 3, 1, 2, 3] (c_tex conf) (c_prog conf)
       (c_uniform conf) gfx)"
  "iqueue (drawQuad conf gfx) =
     iqueue (drawRaw (confVerts conf) [0, 1, 3, 1, 2, 3] (c_tex conf) (c_prog conf)
       (c_uniform conf) gfx)"
  "length (vqueue (drawQuad conf gfx)) =
     length (vqueue (drawRaw (confVerts conf) [0, 1, 3, 1, 2, 3] (c_tex conf) (c_prog conf)
       (c_uniform conf) gfx))"
  "curTex (drawQuad conf gfx) =
     curTex (drawRaw (confVerts conf) [0, 1, 3, 1, 2, 3] (c_tex conf) (c_prog conf)
       (c_uniform conf) gfx)"
  "curProg (drawQuad conf gfx) =
     curProg (drawRaw (confVerts conf) [0, 1, 3, 1, 2, 3] (c_tex conf) (c_prog conf)
       (c_uniform conf) gfx)"
  "curUniform (drawQuad conf gfx) =
     curUniform (drawRaw (confVerts conf) [0, 1, 3, 1, 2, 3] (c_tex conf) (c_prog conf)
       (c_uniform conf) gfx)"
  unfolding drawQuad_def Let_def popTransform_batch popTransform_queues confVerts_def
  by (subst pushed_form, simp only: drawRaw_transform_free)+

lemma overflow_flush_effective:
  assumes "length (vqueue gfx) + length vs * STRIDE > QUEUE_COUNT
           \<or> length (iqueue gfx) + length is > QUEUE_COUNT"
    and "curTex gfx = Some t" and "curProg gfx = Some p"
    and "vqueue gfx \<noteq> []" and "iqueue gfx \<noteq> []"
  shows "gl_drawElements (drawRaw vs is ot op ou gfx) =
           gl_drawElements gfx @
             [\<lparr>de_count = length (iqueue gfx), de_prog = p, de_tex = t,
               de_uniform = curUniform gfx,
               de_vertices = vqueue gfx, de_indices = iqueue gfx\<rparr>]
         \<and> drawCalls (drawRaw vs is ot op ou gfx) = drawCalls gfx + 1
         \<and> iqueue (drawRaw vs is ot op ou gfx) = is
         \<and> vqueue (drawRaw vs is ot op ou gfx) = concat (map (vertFloats gfx) vs)
         \<and> length (iqueue (drawRaw vs is ot op ou gfx)) = length is
         \<and> length (vqueue (drawRaw vs is ot op ou gfx)) = length vs * STRIDE"
proof -
  have f: "flushes gfx vs is (nullish ot (defTex gfx)) (nullish op (defProg gfx))
      (nullish ou no_uniform)"
    using assms(1) by (auto simp: flushes_def)
  note c = drawRaw_counts[OF assms(2-5), of vs "is" ot op ou]
  show ?thesis
    using f c by (simp add: length_concat_vertFloats STRIDE_def)
qed

lemma overflow_queues_nonempty:
  assumes "batchReady gfx"
    and "QUEUE_COUNT < length (vqueue gfx) + length vs * STRIDE
         \<or> QUEUE_COUNT < length (iqueue gfx) + length is"
    and "length vs * STRIDE \<le> QUEUE_COUNT" and "length is \<le> QUEUE_COUNT"
  shows "vqueue gfx \<noteq> []" "iqueue gfx \<noteq> []"
proof -
  from assms(2-4) have "vqueue gfx \<noteq> [] \<or> iqueue gfx \<noteq> []"
    by auto
  with assms(1) show "vqueue gfx \<noteq> []" "iqueue gfx \<noteq> []"
    by (auto simp: batchReady_def)
qed

lemma confVerts_length: "length (confVerts conf) = 4"
  by (simp add: confVerts_def quadVerts_def)

text \<open>
  C2. In every state that drawing reaches (\<open>batchReady\<close>: it holds of the fresh context
  and is kept by \<^verbatim>\<open>flush\<close>, by every drawing operation and by the frame bracket), an
  emit whose geometry would overflow the capacity of the vertex or of the index queue
  is preceded by exactly one flush: one draw call with all the geometry queued so far,
  and the counter goes up by one. The emit is neither rejected nor truncated, and
  afterwards both queues hold only that emit's geometry. This is said of every emit
  that fits the queues by itself, and of the emit of \<^verbatim>\<open>drawQuad\<close>, four vertices and six
  indices, the only one that the code makes.
\<close>

theorem overflow_flushes_once:
  "batchReady (initCtx bw bh occ osc)
   \<and> (batchReady gfx \<longrightarrow>
        batchReady (flush gfx)
        \<and> batchReady (drawQuad conf gfx)
        \<and> batchReady (drawTexture tex conf gfx)
        \<and> batchReady (drawRect pos w h conf gfx)
        \<and> batchReady (drawRectStroke pos w h conf gfx)
        \<and> batchReady (drawLine p1 p2 conf gfx)
        \<and> batchReady (drawText str font conf gfx)
        \<and> batchReady (drawFmtText ftext gfx)
        \<and> batchReady (frameStart gfx)
        \<and> batchReady (frameEnd gfx))
   \<and> (batchReady gfx \<and> curTex gfx = Some t \<and> curProg gfx = Some p
       \<and> (QUEUE_COUNT < length (vqueue gfx) + length vs * STRIDE
          \<or> QUEUE_COUNT < length (iqueue gfx) + length is)
       \<and> length vs * STRIDE \<le> QUEUE_COUNT \<and> length is \<le> QUEUE_COUNT \<longrightarrow>
        gl_drawElements (drawRaw vs is ot op ou gfx) =
          gl_drawElements gfx @
            [\<lparr>de_count = length (iqueue gfx), de_prog = p, de_tex = t,
              de_uniform = curUniform gfx,
              de_vertices = vqueue gfx, de_indices = iqueue gfx\<rparr>]
        \<and> drawCalls (drawRaw vs is ot op ou gfx) = drawCalls gfx + 1
        \<and> iqueue (drawRaw vs is ot op ou gfx) = is
        \<and> vqueue (drawRaw vs is ot op ou gfx) = concat (map (vertFloats gfx) vs)
        \<and> length (iqueue (drawRaw vs is ot op ou gfx)) = length is
        \<and> length (vqueue (drawRaw vs is ot op ou gfx)) = length vs * STRIDE)
   \<and> (batchReady gfx \<and> curTex gfx = Some t \<and> curProg gfx = Some p
       \<and> (QUEUE_COUNT < length (vqueue gfx) + 4 * STRIDE
          \<or> QUEUE_COUNT < length (iqueue gfx) + 6) \<longrightarrow>
        gl_drawElements (drawQuad conf gfx) =
          gl_drawElements gfx @
            [\<lparr>de_count = length (iqueue gfx), de_prog = p, de_tex = t,
              de_uniform = curUniform gfx,
              de_vertices = vqueue gfx, de_indices = iqueue gfx\<rparr>]
        \<and> drawCalls (drawQuad conf gfx) = drawCalls gfx + 1
        \<and> iqueue (drawQuad conf gfx) = [0, 1, 3, 1, 2, 3]
        \<and> length (vqueue (drawQuad conf gfx)) = 4 * STRIDE)"
proof -
  have keep: "batchReady (flush gfx)
      \<and> batchReady (drawQuad conf gfx)
      \<and> batchReady (drawTexture tex conf gfx)
      \<and> batchReady (drawRect pos w h conf gfx)
      \<and> batchReady (drawRectStroke pos w h conf gfx)
      \<and> batchReady (drawLine p1 p2 conf gfx)
      \<and> batchReady (drawText str font conf gfx)
      \<and> batchReady (drawFmtText ftext gfx)
      \<and> batchReady (frameStart gfx)
      \<and> batchReady (frameEnd gfx)" if "batchReady gfx"
    using that
    by (simp add: batchReady_flush batchReady_drawQuad batchReady_drawRectStroke
        batchReady_drawFmtText batchReady_frameStart batchReady_frameEnd
        drawTexture_def drawRect_def drawLine_def drawText_def Let_def)
  have raw: "gl_drawElements (drawRaw vs' is' ot' op' ou' gfx) =
          gl_drawElements gfx @
            [\<lparr>de_count = length (iqueue gfx), de_prog = p, de_tex = t,
              de_uniform = curUniform gfx,
              de_vertices = vqueue gfx, de_indices = iqueue gfx\<rparr>]
        \<and> drawCalls (drawRaw vs' is' ot' op' ou' gfx) = drawCalls gfx + 1
        \<and> iqueue (drawRaw vs' is' ot' op' ou' gfx) = is'
        \<and> vqueue (drawRaw vs' is' ot' op' ou' gfx) = concat (map (vertFloats gfx) vs')
        \<and> length (iqueue (drawRaw vs' is' ot' op' ou' gfx)) = length is'
        \<and> length (vqueue (drawRaw vs' is' ot' op' ou' gfx)) = length vs' * STRIDE"
    if "batchReady gfx" "curTex gfx = Some t" "curProg gfx = Some p"
      "QUEUE_COUNT < length (vqueue gfx) + length vs' * STRIDE
          \<or> QUEUE_COUNT < length (iqueue gfx) + length is'"
      "length vs' * STRIDE \<le> QUEUE_COUNT" "length is' \<le> QUEUE_COUNT"
    for vs' is' ot' op' ou'
    using that(4,2,3) overflow_queues_nonempty[OF that(1,4,5,6)]
    by (rule overflow_flush_effective)
  have quad: "gl_drawElements (drawQuad conf gfx) =
          gl_drawElements gfx @
            [\<lparr>de_count = length (iqueue gfx), de_prog = p, de_tex = t,
              de_uniform = curUniform gfx,
              de_vertices = vqueue gfx, de_indices = iqueue gfx\<rparr>]
        \<and> drawCalls (drawQuad conf gfx) = drawCalls gfx + 1
        \<and> iqueue (drawQuad conf gfx) = [0, 1, 3, 1, 2, 3]
        \<and> length (vqueue (drawQuad conf gfx)) = 4 * STRIDE"
    if "batchReady gfx" "curTex gfx = Some t" "curProg gfx = Some p"
      "QUEUE_COUNT < length (vqueue gfx) + 4 * STRIDE \<or> QUEUE_COUNT < length (iqueue gfx) + 6"
  proof -
    have "QUEUE_COUNT < length (vqueue gfx) + length (confVerts conf) * STRIDE
          \<or> QUEUE_COUNT < length (iqueue gfx) + length [0, 1, 3, 1, 2, 3 :: real]"
      "length (confVerts conf) * STRIDE \<le> QUEUE_COUNT"
      "length [0, 1, 3, 1, 2, 3 :: real] \<le> QUEUE_COUNT"
      using that(4) by (simp_all add: confVerts_length STRIDE_def QUEUE_COUNT_def)
    from raw[OF that(1-3) this, of "c_tex conf" "c_prog conf" "c_uniform conf"]
    have "gl_drawElements (drawRaw (confVerts conf) [0, 1, 3, 1, 2, 3] (c_tex conf) (c_prog conf)
          (c_uniform conf) gfx) =
          gl_drawElements gfx @
            [\<lparr>de_count = length (iqueue gfx), de_prog = p, de_tex = t,
              de_uniform = curUniform gfx,
              de_vertices = vqueue gfx, de_indices = iqueue gfx\<rparr>]"
      and "drawCalls (drawRaw (confVerts conf) [0, 1, 3, 1, 2, 3] (c_tex conf) (c_prog conf)
          (c_uniform conf) gfx) = drawCalls gfx + 1"
      and "iqueue (drawRaw (confVerts conf) [0, 1, 3, 1, 2, 3] (c_tex conf) (c_prog conf)
          (c_uniform conf) gfx) = [0, 1, 3, 1, 2, 3]"
      and "length (vqueue (drawRaw (confVerts conf) [0, 1, 3, 1, 2, 3] (c_tex conf) (c_prog conf)
          (c_uniform conf) gfx)) = length (confVerts conf) * STRIDE"
      by blast+
    then show ?thesis
      unfolding drawQuad_emit confVerts_length by blast
  qed
  show ?thesis
    using batchReady_initCtx[of bw bh occ osc] keep raw[of vs "is" ot op ou] quad by blast
qed

lemma drawQuad_defaults:
  "defTex (drawQuad conf gfx) = defTex gfx" "defProg (drawQuad conf gfx) = defProg gfx"
  by (simp_all add: drawQuad_def Let_def popTransform_def drawRaw_state pushTranslate_def
      pushScale_def pushRotateZ_def pushTransform_def)

lemma plain_quad_appends:
  assumes "curTex g = Some (defTex g)" "curProg g = Some (defProg g)" "curUniform g = no_uniform"
    and "length (vqueue g) + 36 \<le> 65536" "length (iqueue g) + 6 \<le> 65536"
  shows "length (vqueue (drawQuad no_conf g)) = length (vqueue g) + 36"
    and "length (iqueue (drawQuad no_conf g)) = length (iqueue g) + 6"
    and "drawCalls (drawQuad no_conf g) = drawCalls g"
    and "curTex (drawQuad no_conf g) = Some (defTex g)"
    and "curProg (drawQuad no_conf g) = Some (defProg g)"
    and "curUniform (drawQuad no_conf g) = no_uniform"
proof -
  have nf: "\<not> flushes g (confVerts no_conf) [0, 1, 3, 1, 2, 3] (nullish None (defTex g))
      (nullish None (defProg g)) (nullish None no_uniform)"
    using assms
    by (simp add: flushes_iff nullish_simps activeUniform_def sameObject_def no_uniform_def
        deepEq_def confVerts_length)
  have c: "c_tex no_conf = None" "c_prog no_conf = None" "c_uniform no_conf = None"
    by (simp_all add: no_conf_def)
  show "length (vqueue (drawQuad no_conf g)) = length (vqueue g) + 36"
    unfolding drawQuad_emit c drawRaw_vqueue_length using nf by (simp add: confVerts_length)
  show "length (iqueue (drawQuad no_conf g)) = length (iqueue g) + 6"
    unfolding drawQuad_emit c drawRaw_queues(2) using nf by simp
  show "drawCalls (drawQuad no_conf g) = drawCalls g"
    unfolding drawQuad_emit c drawRaw_draws using nf by simp
  show "curTex (drawQuad no_conf g) = Some (defTex g)"
    "curProg (drawQuad no_conf g) = Some (defProg g)"
    "curUniform (drawQuad no_conf g) = no_uniform"
    unfolding drawQuad_emit c drawRaw_state by (simp_all add: nullish_simps)
qed

lemma plain_quads_fill:
  "n \<le> 1820 \<Longrightarrow>
   length (vqueue ((drawQuad no_conf ^^ n) (initCtx 100 100 None None))) = 36 * n
   \<and> length (iqueue ((drawQuad no_conf ^^ n) (initCtx 100 100 None None))) = 6 * n
   \<and> drawCalls ((drawQuad no_conf ^^ n) (initCtx 100 100 None None)) = 0
   \<and> curTex ((drawQuad no_conf ^^ n) (initCtx 100 100 None None)) =
       Some \<lparr>tex_id = 0, tex_width = 1, tex_height = 1\<rparr>
   \<and> curProg ((drawQuad no_conf ^^ n) (initCtx 100 100 None None)) = Some \<lparr>prog_id = 0\<rparr>
   \<and> defTex ((drawQuad no_conf ^^ n) (initCtx 100 100 None None)) =
       \<lparr>tex_id = 0, tex_width = 1, tex_height = 1\<rparr>
   \<and> defProg ((drawQuad no_conf ^^ n) (initCtx 100 100 None None)) = \<lparr>prog_id = 0\<rparr>
   \<and> curUniform ((drawQuad no_conf ^^ n) (initCtx 100 100 None None)) = no_uniform"
proof (induction n)
  case 0
  show ?case by (simp add: initCtx_def nullish_simps)
next
  case (Suc n)
  let ?g = "(drawQuad no_conf ^^ n) (initCtx 100 100 None None)"
  from Suc have ih: "length (vqueue ?g) = 36 * n" "length (iqueue ?g) = 6 * n"
    "drawCalls ?g = 0" "curTex ?g = Some \<lparr>tex_id = 0, tex_width = 1, tex_height = 1\<rparr>"
    "curProg ?g = Some \<lparr>prog_id = 0\<rparr>"
    "defTex ?g = \<lparr>tex_id = 0, tex_width = 1, tex_height = 1\<rparr>"
    "defProg ?g = \<lparr>prog_id = 0\<rparr>" "curUniform ?g = no_uniform"
    by simp_all
  have room: "length (vqueue ?g) + 36 \<le> 65536" "length (iqueue ?g) + 6 \<le> 65536"
    using Suc.prems by (simp_all add: ih)
  have a: "curTex ?g = Some (defTex ?g)" "curProg ?g = Some (defProg ?g)"
    by (simp_all add: ih)
  note q = plain_quad_appends[OF a ih(8) room]
  show ?case
    by (simp add: q ih drawQuad_defaults)
qed

lemma filledCtx_eval:
  "length (vqueue filledCtx) = 65520" "length (iqueue filledCtx) = 10920"
  "drawCalls filledCtx = 0"
  "curTex filledCtx = Some \<lparr>tex_id = 0, tex_width = 1, tex_height = 1\<rparr>"
  "curProg filledCtx = Some \<lparr>prog_id = 0\<rparr>"
  using plain_quads_fill[of 1820] by (simp_all add: filledCtx_def)

lemma batchReady_filledCtx: "batchReady filledCtx"
proof -
  have "vqueue filledCtx \<noteq> []" "iqueue filledCtx \<noteq> []"
    using filledCtx_eval(1,2) by auto
  then show ?thesis
    by (simp add: batchReady_def filledCtx_eval)
qed

theorem overflow_flushes_once_witness:
  "batchReady filledCtx
   \<and> QUEUE_COUNT < length (vqueue filledCtx) + 4 * STRIDE
   \<and> drawCalls (drawQuad no_conf filledCtx) = 1
   \<and> iqueue (drawQuad no_conf filledCtx) = [0, 1, 3, 1, 2, 3]
   \<and> length (vqueue (drawQuad no_conf filledCtx)) = 36"
proof -
  have over: "QUEUE_COUNT < length (vqueue filledCtx) + 4 * STRIDE"
    by (simp add: filledCtx_eval QUEUE_COUNT_def STRIDE_def)
  from overflow_flushes_once[of _ _ _ _ filledCtx no_conf _ _ _ _ _ _ _ _ _
      "\<lparr>tex_id = 0, tex_width = 1, tex_height = 1\<rparr>" "\<lparr>prog_id = 0\<rparr>"]
    batchReady_filledCtx over filledCtx_eval(4,5)
  have "drawCalls (drawQuad no_conf filledCtx) = drawCalls filledCtx + 1
      \<and> iqueue (drawQuad no_conf filledCtx) = [0, 1, 3, 1, 2, 3]
      \<and> length (vqueue (drawQuad no_conf filledCtx)) = 4 * STRIDE"
    by blast
  then show ?thesis
    using batchReady_filledCtx over by (simp add: filledCtx_eval STRIDE_def)
qed

subsection \<open>drawQuad in normalized device coordinates\<close>

lemma multVec2_mat4: "multVec2 mat4 p = vec2 (vx p) (vy p)"
  by (simp add: multVec2_def mat4_def el_def)

lemma drawQuad_vqueue:
  "vqueue (drawQuad conf gfx) =
    (let w = or_num (c_width conf) 0;
         h = or_num (c_height conf) 0;
         g5 = pushTranslate (Some (vscale (originPt (nullish (c_origin conf) DEF_ORIGIN))
                (vscalen (vec2 w h) (- 0.5))))
               (pushRotateZ (or_num (c_rot conf) 0)
                 (pushScale (Some (vec2_of (nullish (c_scale conf) (ScaleNum 1))))
                   (pushTranslate (Some (nullish (c_pos conf) (vec2 0 0))) (pushTransform gfx))));
         vs = quadVerts w h (1 - nullish (c_z conf) 0) (nullish (c_quad conf) (quad 0 0 1 1))
                (nullish (c_color conf) (rgba 1 1 1 1))
     in vqueue (drawRaw vs [0, 1, 3, 1, 2, 3] (c_tex conf) (c_prog conf) (c_uniform conf) g5))"
  by (simp add: drawQuad_def Let_def popTransform_queues)

lemma lastQuad_drawRaw4:
  assumes "length vs = 4"
  shows "drop (length (vqueue (drawRaw vs is ot op ou gfx)) - 4 * STRIDE)
            (vqueue (drawRaw vs is ot op ou gfx)) = concat (map (vertFloats gfx) vs)"
  unfolding drawRaw_queues vertFloats_pre
  by (simp add: length_concat_vertFloats assms STRIDE_def)

lemma centred_quad_points:
  assumes "transform gfx = mat4"
    and "gl_drawingBufferWidth gfx = 100" and "gl_drawingBufferHeight gfx = 100"
    and "scale gfx = 1"
    and "c_origin conf = Some (Named Center)"
    and "c_width conf = Some 10" and "c_height conf = Some 10"
    and "or_num (c_rot conf) 0 = 0"
    and "c_pos conf = Some (vec2 0 0)" and "c_scale conf = None"
  shows "ndcXY (lastQuad (drawQuad conf gfx)) =
           [(- 1.1, 0.9), (- 1.1, 1.1), (- 0.9, 1.1), (- 0.9, 0.9)]"
proof -
  let ?g5 = "pushTranslate (Some (vscale (originPt (Named Center)) (vscalen (vec2 10 10) (- 0.5))))
               (pushRotateZ 0 (pushScale (Some (vec2_of (ScaleNum 1)))
                   (pushTranslate (Some (vec2 0 0)) (pushTransform gfx))))"
  have g5: "?g5 = pushTransform gfx"
    by (simp add: pushTranslate_def pushRotateZ_def pushScale_def vscale_def vscalen_def vec2_def)
  have vals: "or_num (c_width conf) 0 = 10" "or_num (c_height conf) 0 = 10"
    "nullish (c_origin conf) DEF_ORIGIN = Named Center"
    "nullish (c_pos conf) (vec2 0 0) = vec2 0 0"
    "nullish (c_scale conf) (ScaleNum 1) = ScaleNum 1"
    by (simp_all add: assms or_num_def nullish_def)
  have t: "transform (pushTransform gfx) = mat4" "width (pushTransform gfx) = 100"
    "height (pushTransform gfx) = 100"
    using assms(1-4) by (simp_all add: pushTransform_def width_def height_def scale_def)
  have "lastQuad (drawQuad conf gfx) =
      concat (map (vertFloats (pushTransform gfx))
        (quadVerts 10 10 (1 - nullish (c_z conf) 0) (nullish (c_quad conf) (quad 0 0 1 1))
                (nullish (c_color conf) (rgba 1 1 1 1))))"
    unfolding lastQuad_def drawQuad_vqueue Let_def vals assms(8) g5
    by (rule lastQuad_drawRaw4) (simp add: quadVerts_def)
  then show ?thesis
    by (simp add: quadVerts_def vertFloats_def toNDC_def t multVec2_mat4 xy_def vec2_def vec3_def)
qed

lemma centredQuadConf_fields:
  "c_origin centredQuadConf = Some (Named Center)"
  "c_width centredQuadConf = Some 10" "c_height centredQuadConf = Some 10"
  "or_num (c_rot centredQuadConf) 0 = 0"
  "c_pos centredQuadConf = Some (vec2 0 0)" "c_scale centredQuadConf = None"
  by (simp_all add: centredQuadConf_def no_conf_def or_num_def)

lemma initCtx_canvas:
  "transform (initCtx bw bh occ osc) = mat4"
  "gl_drawingBufferWidth (initCtx bw bh occ osc) = bw"
  "gl_drawingBufferHeight (initCtx bw bh occ osc) = bh"
  "scale (initCtx bw bh occ None) = 1"
  by (simp_all add: initCtx_def scale_def nullish_def)

text \<open>
  C5 (amended). \<^verbatim>\<open>drawQuad\<close> with anchor \<^verbatim>\<open>"center"\<close>, width 10, height 10, rotation 0,
  position (0, 0) and no scale, under the identity transform in a 100 by 100 viewport,
  emits four vertices whose NDC coordinates (\<open>x / width * 2 - 1\<close>,
  \<open>- y / height * 2 + 1\<close>) are the corners of the square with half-extent 0.1 around the
  NDC point (-1, 1), the image of the top-left corner (0, 0) of the screen.
\<close>

theorem centred_quad_ndc:
  assumes "transform gfx = mat4"
    and "gl_drawingBufferWidth gfx = 100" and "gl_drawingBufferHeight gfx = 100"
    and "scale gfx = 1"
    and "c_origin conf = Some (Named Center)"
    and "c_width conf = Some 10" and "c_height conf = Some 10"
    and "or_num (c_rot conf) 0 = 0"
    and "c_pos conf = Some (vec2 0 0)" and "c_scale conf = None"
  shows "ndcXY (lastQuad (drawQuad conf gfx)) =
           [(- 1.1, 0.9), (- 1.1, 1.1), (- 0.9, 1.1), (- 0.9, 0.9)]
         \<and> squareAround (- 1) 1 0.1 (ndcXY (lastQuad (drawQuad conf gfx)))"
  unfolding centred_quad_points[OF assms]
  by (auto simp: squareAround_def)

theorem centred_quad_ndc_witness:
  "ndcXY (lastQuad (drawQuad centredQuadConf (initCtx 100 100 None None))) =
     [(- 1.1, 0.9), (- 1.1, 1.1), (- 0.9, 1.1), (- 0.9, 0.9)]
   \<and> squareAround (- 1) 1 0.1
       (ndcXY (lastQuad (drawQuad centredQuadConf (initCtx 100 100 None None))))"
  by (rule centred_quad_ndc) (simp_all add: centredQuadConf_fields initCtx_canvas)

text \<open>
  C5 as stated fails: in the fresh context for a 100 by 100 buffer the four vertices are
  not the corners of the square with half-extent 0.1 around the NDC origin.
\<close>

theorem centred_quad_not_at_ndc_origin_counterexample:
  "\<not> squareAround 0 0 0.1
       (ndcXY (lastQuad (drawQuad centredQuadConf (initCtx 100 100 None None))))"
proof
  let ?pts = "ndcXY (lastQuad (drawQuad centredQuadConf (initCtx 100 100 None None)))"
  assume sq: "squareAround 0 0 0.1 ?pts"
  have "?pts = [(- 1.1, 0.9), (- 1.1, 1.1), (- 0.9, 1.1), (- 0.9, 0.9)]"
    by (rule centred_quad_points) (simp_all add: centredQuadConf_fields initCtx_canvas)
  then have "(- 1.1, 0.9) \<in> set ?pts"
    by simp
  with sq have "(- 1.1 :: real, 0.9 :: real) \<in>
      {(0 - 0.1, 0 - 0.1), (0 - 0.1, 0 + 0.1), (0 + 0.1, 0 - 0.1), (0 + 0.1, 0 + 0.1)}"
    unfolding squareAround_def by blast
  then show False
    by simp
qed

subsection \<open>drawRectStroke\<close>

lemma rectStrokeLines_corners:
  "rectStrokeLines pos w h conf =
     [(rectCorner pos w h conf (-1) (-1), rectCorner pos w h conf (-1) 1),
      (rectCorner pos w h conf (-1) 1, rectCorner pos w h conf 1 1),
      (rectCorner pos w h conf 1 1, rectCorner pos w h conf 1 (-1)),
      (rectCorner pos w h conf 1 (-1), rectCorner pos w h conf (-1) (-1))]"
  by (simp add: rectStrokeLines_def rectCorner_def Let_def vsub_def vadd_def vscale_def
      vscalen_def vec2_def)

text \<open>
  C6 (amended). For every position, width, height and anchor, \<^verbatim>\<open>drawRectStroke\<close> issues
  exactly four \<^verbatim>\<open>drawLine\<close> calls, one per edge of the rectangle (corners adjusted by the
  anchor offset), in the fixed order left, bottom, right, top; each line starts where the
  one before ends and the last ends where the first starts, a closed outline.
\<close>

theorem rect_stroke_four_lines:
  "rectStrokeLines pos w h conf =
     [(rectCorner pos w h conf (-1) (-1), rectCorner pos w h conf (-1) 1),
      (rectCorner pos w h conf (-1) 1, rectCorner pos w h conf 1 1),
      (rectCorner pos w h conf 1 1, rectCorner pos w h conf 1 (-1)),
      (rectCorner pos w h conf 1 (-1), rectCorner pos w h conf (-1) (-1))]
   \<and> alongEdge (leftEdge pos w h conf) (rectStrokeLines pos w h conf ! 0)
   \<and> alongEdge (bottomEdge pos w h conf) (rectStrokeLines pos w h conf ! 1)
   \<and> alongEdge (rightEdge pos w h conf) (rectStrokeLines pos w h conf ! 2)
   \<and> alongEdge (topEdge pos w h conf) (rectStrokeLines pos w h conf ! 3)
   \<and> drawRectStroke pos w h conf gfx =
       drawLine (rectCorner pos w h conf 1 (-1)) (rectCorner pos w h conf (-1) (-1)) conf
        (drawLine (rectCorner pos w h conf 1 1) (rectCorner pos w h conf 1 (-1)) conf
          (drawLine (rectCorner pos w h conf (-1) 1) (rectCorner pos w h conf 1 1) conf
            (drawLine (rectCorner pos w h conf (-1) (-1)) (rectCorner pos w h conf (-1) 1) conf
              gfx)))"
  unfolding drawRectStroke_def rectStrokeLines_corners
  by (simp add: alongEdge_def leftEdge_def bottomEdge_def rightEdge_def topEdge_def)

theorem rect_stroke_four_lines_witness:
  "rectStrokeLines (vec2 0 0) 10 10 no_conf =
     [(vec2 0 0, vec2 0 10), (vec2 0 10, vec2 10 10),
      (vec2 10 10, vec2 10 0), (vec2 10 0, vec2 0 0)]"
  using rect_stroke_four_lines [of "vec2 0 0" 10 10 no_conf]
  by (simp add: rectCorner_def no_conf_def nullish_def DEF_ORIGIN_def vec2_def)

text \<open>
  C6 as stated fails in the order of the calls: for the rectangle of 10 by 10 at (0, 0)
  with the default anchor, the first line drawn runs from (0, 0) to (0, 10), along the
  left edge and not along the top edge.
\<close>

theorem rect_stroke_first_line_not_top_counterexample:
  "\<not> alongEdge (topEdge (vec2 0 0) 10 10 no_conf) (rectStrokeLines (vec2 0 0) 10 10 no_conf ! 0)"
  unfolding rectStrokeLines_corners
  by (simp add: alongEdge_def topEdge_def rectCorner_def no_conf_def nullish_def DEF_ORIGIN_def
      vec2_def)

subsection \<open>Text layout\<close>

lemma pushLast_snoc: "pushLast (ls @ [l]) c = ls @ [l @ [c]]"
proof (induction ls)
  case Nil
  show ?case by simp
next
  case (Cons k ls)
  then show ?case by (cases ls) simp_all
qed

lemma pushLast_butlast: "ls \<noteq> [] \<Longrightarrow> pushLast ls c = butlast ls @ [last ls @ [c]]"
  using pushLast_snoc[of "butlast ls" "last ls" c] by simp

lemma concat_butlast_last: "ls \<noteq> [] \<Longrightarrow> concat (butlast ls) @ last ls = concat ls"
  by (induction ls) auto

lemma pushLast_facts:
  assumes "ls \<noteq> []"
  shows "pushLast ls c \<noteq> []" "length (pushLast ls c) = length ls"
    "concat (pushLast ls c) = concat ls @ [c]"
  using assms by (simp_all add: pushLast_butlast concat_butlast_last)

lemma maxLineWidth_nonneg: "0 \<le> maxLineWidth cw ls"
  by (induction ls) (simp_all add: maxLineWidth_def)

lemma maxLineWidth_Cons:
  "maxLineWidth cw (l # ls) = max (real (length l) * cw) (maxLineWidth cw ls)"
  by (simp add: maxLineWidth_def)

lemma maxLineWidth_snoc:
  "maxLineWidth cw (ls @ [l]) = max (maxLineWidth cw ls) (real (length l) * cw)"
proof (induction ls)
  case Nil
  show ?case by (simp add: maxLineWidth_def)
next
  case (Cons k ls)
  then show ?case by (simp add: maxLineWidth_Cons max.assoc)
qed

lemma maxLineWidth_grow:
  "max (maxLineWidth cw (ls @ [l])) (real (length l) * cw + cw) = maxLineWidth cw (ls @ [l @ [c]])"
proof -
  have n: "0 \<le> maxLineWidth cw ls" by (rule maxLineWidth_nonneg)
  have e: "real (length (l @ [c])) * cw = real (length l) * cw + cw"
    by (simp add: algebra_simps)
  show ?thesis
  proof (cases "0 \<le> cw")
    case True
    then show ?thesis unfolding maxLineWidth_snoc e by (simp add: max_def)
  next
    case False
    then have "real (length l) * cw \<le> 0"
      by (simp add: mult_nonneg_nonpos)
    with n False show ?thesis unfolding maxLineWidth_snoc e by (simp add: max_def)
  qed
qed

lemma fmtInv_step:
  assumes "fmtInv cw ch s"
  shows "fmtInv cw ch (fmtStep ow cw ch s c)"
proof -
  from assms have ne: "flines s \<noteq> []"
    and h: "th s = real (length (flines s)) * ch"
    and cx: "curX s = real (length (last (flines s))) * cw"
    and w: "tw s = maxLineWidth cw (flines s)"
    by (simp_all add: fmtInv_def)
  obtain ls l where sp: "flines s = ls @ [l]"
    using ne by (metis append_butlast_last_id)
  have cx': "curX s = real (length l) * cw"
    using cx sp by simp
  have z: "max (maxLineWidth cw x) 0 = maxLineWidth cw x" for x
    using maxLineWidth_nonneg[of cw x] by simp
  show ?thesis
  proof (cases "c = NL \<or> exceedsWrap ow (curX s) cw")
    case True
    then show ?thesis
      using h w
      by (cases "c = NL")
        (simp_all add: fmtInv_def fmtStep_def Let_def pushLast_snoc maxLineWidth_snoc z
          algebra_simps)
  next
    case False
    then show ?thesis
      using h w cx' maxLineWidth_grow[of cw ls l c]
      by (simp add: fmtInv_def fmtStep_def Let_def sp pushLast_snoc distrib_right)
  qed
qed

lemma fmtInv_foldl: "fmtInv cw ch s \<Longrightarrow> fmtInv cw ch (foldl (fmtStep ow cw ch) s cs)"
  by (rule foldl_inv) (simp_all add: fmtInv_step)

lemma fmtLoop_inv: "fmtInv cw ch (fmtLoop ow cw ch cs)"
  unfolding fmtLoop_def
  by (rule fmtInv_foldl) (simp add: fmtInv_def maxLineWidth_def)

lemma fmtLoop_flines_nonempty: "flines (fmtLoop ow cw ch cs) \<noteq> []"
  using fmtLoop_inv[of cw ch ow cs] by (simp add: fmtInv_def)


lemma fmtStep_flines:
  assumes "flines s \<noteq> []"
  shows "flines (fmtStep ow cw ch s c) \<noteq> []"
    and "concat (flines (fmtStep ow cw ch s c)) = concat (flines s) @ (if c = NL then [] else [c])"
  using assms by (simp_all add: fmtStep_def Let_def pushLast_facts)

lemma fmtLoop_concat_gen:
  "flines s \<noteq> [] \<Longrightarrow>
   concat (flines (foldl (fmtStep ow cw ch) s cs)) = concat (flines s) @ filter (\<lambda>c. c \<noteq> NL) cs"
proof (induction cs arbitrary: s)
  case Nil
  show ?case by simp
next
  case (Cons c cs)
  from Cons.IH[OF fmtStep_flines(1)[OF Cons.prems]] show ?case
    by (simp add: fmtStep_flines(2)[OF Cons.prems])
qed

lemma fmtLoop_concat: "concat (flines (fmtLoop ow cw ch cs)) = filter (\<lambda>c. c \<noteq> NL) cs"
  unfolding fmtLoop_def by (subst fmtLoop_concat_gen) simp_all

lemma fmtStep_nowrap_length:
  assumes "or_num ow 0 = 0" "flines s \<noteq> []"
  shows "length (flines (fmtStep ow cw ch s c)) = length (flines s) + (if c = NL then 1 else 0)"
proof -
  have nw: "\<not> exceedsWrap ow x cw" for x
    using assms(1) by (simp add: exceedsWrap_def or_num_def split: option.splits if_splits)
  show ?thesis
    using assms(2) by (simp add: fmtStep_def Let_def nw pushLast_facts)
qed

lemma fmtLoop_nowrap_length_gen:
  "or_num ow 0 = 0 \<Longrightarrow> flines s \<noteq> [] \<Longrightarrow>
   length (flines (foldl (fmtStep ow cw ch) s cs)) = length (flines s) + count_list cs NL"
proof (induction cs arbitrary: s)
  case Nil
  show ?case by simp
next
  case (Cons c cs)
  from Cons.IH[OF Cons.prems(1) fmtStep_flines(1)[OF Cons.prems(2)]] show ?case
    by (simp add: fmtStep_nowrap_length[OF Cons.prems])
qed

lemma fmtLoop_nowrap_length:
  "or_num ow 0 = 0 \<Longrightarrow> length (flines (fmtLoop ow cw ch cs)) = 1 + count_list cs NL"
  unfolding fmtLoop_def by (subst fmtLoop_nowrap_length_gen) simp_all

lemma fmtLoop_measures:
  "th (fmtLoop ow cw ch cs) = real (length (flines (fmtLoop ow cw ch cs))) * ch"
  "tw (fmtLoop ow cw ch cs) = maxLineWidth cw (flines (fmtLoop ow cw ch cs))"
  using fmtLoop_inv[of cw ch ow cs] by (simp_all add: fmtInv_def)

lemma fmtText_height:
  "ft_height (fmtText str font conf) =
     real (length (fmtLines str font conf)) * fmtCh font conf"
  by (simp add: fmtText_def fmtLines_def Let_def fmtLoop_measures)

lemma fmtText_width:
  "ft_width (fmtText str font conf) =
     (case c_width conf of
        None \<Rightarrow> maxLineWidth (fmtCw font conf) (fmtLines str font conf)
      | Some w \<Rightarrow> if w = 0 then maxLineWidth (fmtCw font conf) (fmtLines str font conf) else w)"
  by (simp add: fmtText_def fmtLines_def Let_def fmtLoop_measures split: option.splits)

lemma glyphs_of_line:
  "length ns = length line \<Longrightarrow>
   map fc_ch (List.map_filter (fmtGlyph font conf pos sc cw ch ox oy oxl lno) (zip ns line)) =
     filter (\<lambda>c. fmap font c \<noteq> None) line"
proof (induction ns line rule: list_induct2)
  case Nil
  show ?case by simp
next
  case (Cons n ns c line)
  then show ?case
    by (cases "fmap font c") (simp_all add: fmtGlyph_def Let_def)
qed

lemma glyphs_of_lines:
  assumes "length ms = length ls"
    and "\<And>m l. map fc_ch (F m l) = filter P l"
  shows "map fc_ch (concat (map (\<lambda>(m, l). F m l) (zip ms ls))) = filter P (concat ls)"
  using assms(1) by (induction ms ls rule: list_induct2) (simp_all add: assms(2))

lemma fmtText_chars:
  "map fc_ch (ft_chars (fmtText str font conf)) =
     filter (\<lambda>c. fmap font c \<noteq> None) (filter (\<lambda>c. c \<noteq> NL) str)"
proof -
  have "map fc_ch (ft_chars (fmtText str font conf)) =
      filter (\<lambda>c. fmap font c \<noteq> None)
        (concat (flines (fmtLoop (c_width conf) (fmtCw font conf) (fmtCh font conf) str)))"
    unfolding fmtText_def Let_def indexed_def FormattedText.select_convs
    by (rule glyphs_of_lines) (simp_all add: glyphs_of_line)
  then show ?thesis
    by (simp only: fmtLoop_concat)
qed


lemma no_conf_fields:
  "c_width no_conf = None" "c_pos no_conf = None" "c_origin no_conf = None"
  "c_scale no_conf = None" "c_size no_conf = None" "c_color no_conf = None" "c_z no_conf = None"
  by (simp_all add: no_conf_def)

lemma fmtLines_a_nl_b: "fmtLines [CHR ''a'', NL, CHR ''b''] font no_conf = [''a'', ''b'']"
  by (simp add: fmtLines_def fmtLoop_def fmtStep_def Let_def exceedsWrap_def no_conf_fields NL_def)

lemma fmtText_ab:
  assumes "fmap font (CHR ''a'') = Some qa" "fmap font (CHR ''b'') = Some qb"
  shows "map fc_ch (ft_chars (fmtText ''ab'' font no_conf)) = ''ab''"
    and "length (ft_chars (fmtText ''ab'' font no_conf)) = 2"
    and "vx (fc_pos (ft_chars (fmtText ''ab'' font no_conf) ! 1)) =
          vx (fc_pos (ft_chars (fmtText ''ab'' font no_conf) ! 0)) + fmtCw font no_conf"
proof -
  have l: "flines (fmtLoop None (fmtCw font no_conf) (fmtCh font no_conf) ''ab'') = [''ab'']"
    by (simp add: fmtLoop_def fmtStep_def Let_def exceedsWrap_def NL_def)
  show "map fc_ch (ft_chars (fmtText ''ab'' font no_conf)) = ''ab''"
    by (simp add: fmtText_chars assms NL_def)
  then show "length (ft_chars (fmtText ''ab'' font no_conf)) = 2"
    by (metis length_map length_Cons list.size(3) numeral_2_eq_2)
  show "vx (fc_pos (ft_chars (fmtText ''ab'' font no_conf) ! 1)) =
          vx (fc_pos (ft_chars (fmtText ''ab'' font no_conf) ! 0)) + fmtCw font no_conf"
    by (simp add: fmtText_def Let_def no_conf_fields l indexed_def fmtGlyph_def assms vec2_def
        )
qed

lemma fmtCw_default:
  assumes "fqh font * tex_height (ftex font) \<noteq> 0"
  shows "fmtCw font no_conf = fqw font * tex_width (ftex font)"
  using assms
  by (simp add: fmtCw_def fmtScale_def Let_def no_conf_fields or_num_def vscale_def vec2_def)


lemma nowrap_width:
  "or_num (c_width conf) 0 = 0 \<Longrightarrow>
   ft_width (fmtText str font conf) = maxLineWidth (fmtCw font conf) (fmtLines str font conf)"
  by (simp add: fmtText_width or_num_def split: option.splits if_splits)

lemma wrap_width:
  "c_width conf = Some w \<Longrightarrow> w \<noteq> 0 \<Longrightarrow> ft_width (fmtText str font conf) = w"
  by (simp add: fmtText_width)

text \<open>
  C7 (amended). For every input string, font and configuration, the total height that
  \<^verbatim>\<open>fmtText\<close> returns is the number of lines times the line height. Its total width
  is the maximum line width reached during layout when no wrap width is configured, and
  the configured wrap width otherwise. In particular \<^verbatim>\<open>fmtText("a\nb", font, {})\<close> lays
  out 2 lines with total height 2 times the line height, and \<^verbatim>\<open>fmtText("ab", font, {})\<close>
  gives 2 glyph entries, \<open>a\<close> then \<open>b\<close>, the second one cell width further right (so with
  increasing x for a font whose cells have a positive width).
\<close>

theorem fmtText_measures:
  "ft_height (fmtText str font conf) = real (length (fmtLines str font conf)) * fmtCh font conf
   \<and> (or_num (c_width conf) 0 = 0 \<longrightarrow>
        ft_width (fmtText str font conf) =
          maxLineWidth (fmtCw font conf) (fmtLines str font conf)
        \<and> length (fmtLines str font conf) = 1 + count_list str NL)
   \<and> (c_width conf = Some w \<and> w \<noteq> 0 \<longrightarrow> ft_width (fmtText str font conf) = w)
   \<and> fmtLines [CHR ''a'', NL, CHR ''b''] font no_conf = [''a'', ''b'']
   \<and> ft_height (fmtText [CHR ''a'', NL, CHR ''b''] font no_conf) = 2 * fmtCh font no_conf
   \<and> (fmap font (CHR ''a'') = Some qa \<and> fmap font (CHR ''b'') = Some qb \<longrightarrow>
        map fc_ch (ft_chars (fmtText ''ab'' font no_conf)) = ''ab''
        \<and> length (ft_chars (fmtText ''ab'' font no_conf)) = 2
        \<and> vx (fc_pos (ft_chars (fmtText ''ab'' font no_conf) ! 1)) =
            vx (fc_pos (ft_chars (fmtText ''ab'' font no_conf) ! 0)) + fmtCw font no_conf
        \<and> (0 < fqw font * tex_width (ftex font) \<and> fqh font * tex_height (ftex font) \<noteq> 0 \<longrightarrow>
             vx (fc_pos (ft_chars (fmtText ''ab'' font no_conf) ! 0)) <
             vx (fc_pos (ft_chars (fmtText ''ab'' font no_conf) ! 1))))"
proof -
  have c1: "ft_height (fmtText str font conf) =
      real (length (fmtLines str font conf)) * fmtCh font conf"
    by (rule fmtText_height)
  have c2: "ft_width (fmtText str font conf) =
        maxLineWidth (fmtCw font conf) (fmtLines str font conf)
      \<and> length (fmtLines str font conf) = 1 + count_list str NL"
    if "or_num (c_width conf) 0 = 0"
    using that unfolding fmtLines_def
    by (simp add: nowrap_width[unfolded fmtLines_def] fmtLoop_nowrap_length)
  have c3: "ft_width (fmtText str font conf) = w" if "c_width conf = Some w \<and> w \<noteq> 0"
    using that by (simp add: wrap_width)
  have c4: "fmtLines [CHR ''a'', NL, CHR ''b''] font no_conf = [''a'', ''b'']"
    by (rule fmtLines_a_nl_b)
  have c5: "ft_height (fmtText [CHR ''a'', NL, CHR ''b''] font no_conf) = 2 * fmtCh font no_conf"
    by (simp add: fmtText_height fmtLines_a_nl_b)
  have c6: "vx (fc_pos (ft_chars (fmtText ''ab'' font no_conf) ! 0)) <
             vx (fc_pos (ft_chars (fmtText ''ab'' font no_conf) ! 1))"
    if "fmap font (CHR ''a'') = Some qa \<and> fmap font (CHR ''b'') = Some qb"
      "0 < fqw font * tex_width (ftex font) \<and> fqh font * tex_height (ftex font) \<noteq> 0"
  proof -
    from that(2) have "fmtCw font no_conf = fqw font * tex_width (ftex font)"
      by (intro fmtCw_default) blast
    with that fmtText_ab(3)[of font qa qb] show ?thesis
      by simp
  qed
  show ?thesis
    using c1 c2 c3 c4 c5 c6 fmtText_ab[of font qa qb] by blast
qed

lemma exFont_fields:
  "ftex exFont = \<lparr>tex_id = 2, tex_width = 16, tex_height = 8\<rparr>"
  "fqw exFont = 1 / 2" "fqh exFont = 1"
  by (simp_all add: exFont_def makeFont_def Let_def)

lemma exFont_map: "fmap exFont (CHR ''a'') = Some (vec2 0 0)"
  "fmap exFont (CHR ''b'') = Some (vec2 (1 / 2) 0)" "fmap exFont (CHR ''z'') = None"
  by (simp_all add: exFont_def makeFont_def Let_def indexed_def jsMod_def jsTrunc_def)

lemma nlFont_map: "fmap nlFont NL = Some (vec2 (1 / 2) 0)"
  by (simp add: nlFont_def makeFont_def Let_def indexed_def jsMod_def jsTrunc_def NL_def)

lemma exFont_cell: "fmtCw exFont no_conf = 8" "fmtCh exFont no_conf = 8"
  "fmtCw exFont wrapConf = 8" "fmtCh exFont wrapConf = 8"
  by (simp_all add: fmtCw_def fmtCh_def fmtScale_def Let_def no_conf_def wrapConf_def
      exFont_fields or_num_def vscale_def vec2_def)

theorem fmtText_measures_witness:
  "ft_height (fmtText [CHR ''a'', NL, CHR ''b''] exFont no_conf) = 16
   \<and> ft_width (fmtText [CHR ''a'', NL, CHR ''b''] exFont no_conf) = 8
   \<and> ft_width (fmtText [CHR ''a'', NL, CHR ''b''] exFont wrapConf) = 100
   \<and> vx (fc_pos (ft_chars (fmtText ''ab'' exFont no_conf) ! 0)) <
       vx (fc_pos (ft_chars (fmtText ''ab'' exFont no_conf) ! 1))"
proof -
  have a: "or_num (c_width no_conf) 0 = 0"
    by (simp add: no_conf_def or_num_def)
  have b: "c_width wrapConf = Some 100 \<and> (100::real) \<noteq> 0"
    by (simp add: wrapConf_def no_conf_def)
  have c: "fmap exFont (CHR ''a'') = Some (vec2 0 0)
      \<and> fmap exFont (CHR ''b'') = Some (vec2 (1 / 2) 0)"
    by (simp add: exFont_map)
  have d: "0 < fqw exFont * tex_width (ftex exFont) \<and> fqh exFont * tex_height (ftex exFont) \<noteq> 0"
    by (simp add: exFont_fields)
  from fmtText_measures[of "[CHR ''a'', NL, CHR ''b'']" exFont no_conf 100 "vec2 0 0"
      "vec2 (1 / 2) 0"] a c d
  have "ft_height (fmtText [CHR ''a'', NL, CHR ''b''] exFont no_conf) = 2 * fmtCh exFont no_conf
      \<and> ft_width (fmtText [CHR ''a'', NL, CHR ''b''] exFont no_conf) =
          maxLineWidth (fmtCw exFont no_conf) [''a'', ''b'']
      \<and> vx (fc_pos (ft_chars (fmtText ''ab'' exFont no_conf) ! 0)) <
          vx (fc_pos (ft_chars (fmtText ''ab'' exFont no_conf) ! 1))"
    by simp
  moreover from fmtText_measures[of "[CHR ''a'', NL, CHR ''b'']" exFont wrapConf 100] b
  have "ft_width (fmtText [CHR ''a'', NL, CHR ''b''] exFont wrapConf) = 100"
    by blast
  ultimately show ?thesis
    by (simp add: exFont_cell maxLineWidth_def)
qed

text \<open>
  C7 as stated fails with a wrap width: for the text \<open>a\<close> in a font of 8 pixel wide cells
  and a wrap width of 100, the widest line is 8 wide and the returned width is 100.
\<close>

theorem fmtText_wrap_width_counterexample:
  "ft_width (fmtText ''a'' exFont wrapConf) = 100
   \<and> maxLineWidth (fmtCw exFont wrapConf) (fmtLines ''a'' exFont wrapConf) = 8
   \<and> ft_width (fmtText ''a'' exFont wrapConf) \<noteq>
       maxLineWidth (fmtCw exFont wrapConf) (fmtLines ''a'' exFont wrapConf)"
proof -
  have w: "c_width wrapConf = Some 100"
    by (simp add: wrapConf_def no_conf_def)
  have l: "fmtLines ''a'' exFont wrapConf = [''a'']"
    by (simp add: fmtLines_def fmtLoop_def fmtStep_def Let_def exceedsWrap_def w exFont_cell
        NL_def)
  show ?thesis
    by (simp add: fmtText_width w l exFont_cell maxLineWidth_def)
qed


lemma fmtLines_concat: "concat (fmtLines str font conf) = filter (\<lambda>c. c \<noteq> NL) str"
  unfolding fmtLines_def by (rule fmtLoop_concat)

lemma fmtLines_az: "fmtLines ''az'' font no_conf = [''az'']"
  by (simp add: fmtLines_def fmtLoop_def fmtStep_def Let_def exceedsWrap_def no_conf_fields NL_def)

text \<open>
  C8 (amended). For every input string, font and configuration, \<^verbatim>\<open>fmtText\<close> emits exactly
  one glyph entry, in order, per character other than the line break that has an entry
  in the font's character map. A character without an entry is skipped without an error,
  yet it stands in its line like any other and takes its cell, so the measured width
  accounts for it; \<^verbatim>\<open>fmtText("az", font, {})\<close> with \<open>z\<close> unmapped returns exactly 1 glyph
  entry (for \<open>a\<close>) and the width of two cells.
\<close>

theorem fmtText_glyph_per_mapped_char:
  "map fc_ch (ft_chars (fmtText str font conf)) =
     filter (\<lambda>c. c \<noteq> NL \<and> fmap font c \<noteq> None) str
   \<and> length (ft_chars (fmtText str font conf)) =
       length (filter (\<lambda>c. c \<noteq> NL \<and> fmap font c \<noteq> None) str)
   \<and> concat (fmtLines str font conf) = filter (\<lambda>c. c \<noteq> NL) str
   \<and> (or_num (c_width conf) 0 = 0 \<longrightarrow>
        ft_width (fmtText str font conf) =
          maxLineWidth (fmtCw font conf) (fmtLines str font conf))
   \<and> (fmap font (CHR ''a'') = Some qa \<and> fmap font (CHR ''z'') = None \<longrightarrow>
        map fc_ch (ft_chars (fmtText ''az'' font no_conf)) = ''a''
        \<and> length (ft_chars (fmtText ''az'' font no_conf)) = 1
        \<and> ft_width (fmtText ''az'' font no_conf) = max (2 * fmtCw font no_conf) 0
        \<and> (0 \<le> fmtCw font no_conf \<longrightarrow>
             ft_width (fmtText ''az'' font no_conf) = 2 * fmtCw font no_conf))"
proof -
  have c1: "map fc_ch (ft_chars (fmtText s f c)) =
      filter (\<lambda>c. c \<noteq> NL \<and> fmap f c \<noteq> None) s" for s f c
    by (simp add: fmtText_chars)
  have c2: "length (ft_chars (fmtText s f c)) =
      length (filter (\<lambda>c. c \<noteq> NL \<and> fmap f c \<noteq> None) s)" for s f c
    using c1[of s f c] by (metis length_map)
  have c3: "ft_width (fmtText ''az'' font no_conf) = max (2 * fmtCw font no_conf) 0"
    by (simp add: nowrap_width no_conf_fields or_num_def fmtLines_az maxLineWidth_def)
  have c4: "map fc_ch (ft_chars (fmtText ''az'' font no_conf)) = ''a''
      \<and> length (ft_chars (fmtText ''az'' font no_conf)) = 1"
    if "fmap font (CHR ''a'') = Some qa \<and> fmap font (CHR ''z'') = None"
    using that by (simp add: c1 c2 NL_def)
  have c5: "ft_width (fmtText ''az'' font no_conf) = 2 * fmtCw font no_conf"
    if "0 \<le> fmtCw font no_conf"
    using that c3 by simp
  show ?thesis
    using c1[of str font conf] c2[of str font conf] c3 c4 c5
      fmtLines_concat[of str font conf] nowrap_width[of conf str font]
    by blast
qed

theorem fmtText_glyph_per_mapped_char_witness:
  "map fc_ch (ft_chars (fmtText ''az'' exFont no_conf)) = ''a''
   \<and> length (ft_chars (fmtText ''az'' exFont no_conf)) = 1
   \<and> ft_width (fmtText ''az'' exFont no_conf) = 16"
proof -
  have a: "fmap exFont (CHR ''a'') = Some (vec2 0 0) \<and> fmap exFont (CHR ''z'') = None"
    by (simp add: exFont_map)
  have b: "0 \<le> fmtCw exFont no_conf"
    by (simp add: exFont_cell)
  from fmtText_glyph_per_mapped_char[of "''az''" exFont no_conf "vec2 0 0"] a b
  have "map fc_ch (ft_chars (fmtText ''az'' exFont no_conf)) = ''a''
      \<and> length (ft_chars (fmtText ''az'' exFont no_conf)) = 1
      \<and> ft_width (fmtText ''az'' exFont no_conf) = 2 * fmtCw exFont no_conf"
    by blast
  then show ?thesis
    by (simp add: exFont_cell)
qed

text \<open>
  C8 as stated fails for a font whose character map has an entry for the line break, as
  \<^verbatim>\<open>makeFont\<close> builds it from a character set that holds one: the line break starts a
  new line and never gets a glyph.
\<close>

theorem fmtText_mapped_line_break_counterexample:
  "fmap nlFont NL \<noteq> None
   \<and> ft_chars (fmtText [NL] nlFont no_conf) = []
   \<and> length (ft_chars (fmtText [NL] nlFont no_conf)) \<noteq>
       length (filter (\<lambda>c. fmap nlFont c \<noteq> None) [NL])"
proof -
  have "map fc_ch (ft_chars (fmtText [NL] nlFont no_conf)) = []"
    by (simp add: fmtText_chars)
  then have "ft_chars (fmtText [NL] nlFont no_conf) = []"
    by simp
  then show ?thesis
    by (simp add: nlFont_map)
qed

end
